theory Spec2Isabelle
  imports Complex_Main "HOL-Library.FSet" "HOL-Library.Multiset"
begin

section \<open>Python strings\<close>

text \<open>
  A Python \<^verbatim>\<open>str\<close> is a sequence of Unicode code points, so it is modelled as a list of
  naturals. \<open>py\<close> writes an ASCII literal.
\<close>

type_synonym pystr = "nat list"

definition py :: "string \<Rightarrow> pystr" where
  "py s = map of_char s"

text \<open>
  \<^verbatim>\<open>str.isspace\<close> on one code point; \<^verbatim>\<open>str.strip()\<close> and the \<^verbatim>\<open>\s\<close> of \<^verbatim>\<open>re\<close>
  (on \<^verbatim>\<open>str\<close> patterns) use the same table.
\<close>

definition isspace :: "nat \<Rightarrow> bool" where
  "isspace c \<longleftrightarrow>
     (9 \<le> c \<and> c \<le> 13) \<or> (28 \<le> c \<and> c \<le> 32) \<or> c = 133 \<or> c = 160 \<or> c = 5760 \<or>
     (8192 \<le> c \<and> c \<le> 8202) \<or> c = 8232 \<or> c = 8233 \<or> c = 8239 \<or> c = 8287 \<or> c = 12288"

definition strip :: "pystr \<Rightarrow> pystr" where
  "strip s = rev (dropWhile isspace (rev (dropWhile isspace s)))"

text \<open>
  The Unicode database is not part of the repository. Which code points beyond ASCII are
  alphanumeric (\<^verbatim>\<open>\w\<close>) is a parameter of the model, of type \<open>ucd\<close>.
\<close>

type_synonym ucd = "nat \<Rightarrow> bool"

definition isword :: "ucd \<Rightarrow> nat \<Rightarrow> bool" where
  "isword W c \<longleftrightarrow>
     (if c < 128 then (48 \<le> c \<and> c \<le> 57) \<or> (65 \<le> c \<and> c \<le> 90) \<or> (97 \<le> c \<and> c \<le> 122) \<or> c = 95
      else W c)"

text \<open>\<^verbatim>\<open>s.split('\n\n')\<close>: the pieces between the non-overlapping separators, left to right.\<close>

fun split_nn_from :: "pystr \<Rightarrow> pystr \<Rightarrow> pystr list" where
  "split_nn_from acc [] = [acc]"
| "split_nn_from acc (c # d # cs) =
     (if c = 10 \<and> d = 10 then acc # split_nn_from [] cs else split_nn_from (acc @ [c]) (d # cs))"
| "split_nn_from acc [c] = [acc @ [c]]"

definition split_nn :: "pystr \<Rightarrow> pystr list" where
  "split_nn s = split_nn_from [] s"

text \<open>\<^verbatim>\<open>sub in s\<close> for strings.\<close>

fun starts_with :: "pystr \<Rightarrow> pystr \<Rightarrow> bool" where
  "starts_with [] s = True"
| "starts_with (a # as) [] = False"
| "starts_with (a # as) (c # cs) = (a = c \<and> starts_with as cs)"

fun contains :: "pystr \<Rightarrow> pystr \<Rightarrow> bool" where
  "contains sub [] = (sub = [])"
| "contains sub (c # cs) = (starts_with sub (c # cs) \<or> contains sub cs)"

text \<open>
  \<^verbatim>\<open>str.lower()\<close>. ASCII letters are lowered; other code points are kept. Python lowers
  them by the Unicode tables, which yield an ASCII letter only for U+0130 (\<open>i\<close> followed by
  U+0307) and U+212A (\<open>k\<close>), so the searches for \<open>timeout\<close>, \<open>rate\<close> and \<open>limit\<close>
  below see the same result.
\<close>

definition lower :: "pystr \<Rightarrow> pystr" where
  "lower s = map (\<lambda>c. if 65 \<le> c \<and> c \<le> 90 then c + 32 else c) s"

section \<open>The regular expressions of the source\<close>

text \<open>
  A backtracking matcher in the style of Python's \<^verbatim>\<open>re\<close>: \<open>rmatch r b s\<close> lists, in the
  order in which backtracking tries them, the ways \<open>r\<close> matches a prefix of \<open>s\<close>, each as
  the text left over and the captured groups. \<open>b\<close> says that \<open>s\<close> starts the subject.
  Repetition is over single-character classes, which is all the source uses.
\<close>

datatype re =
    Eps
  | Lit nat
  | Cls "nat \<Rightarrow> bool"
  | Star "nat \<Rightarrow> bool"
  | Plus "nat \<Rightarrow> bool"
  | LazyStar "nat \<Rightarrow> bool"
  | Seq re re
  | Alt re re
  | Grp re
  | Look re
  | Bos
  | Eos

fun runs :: "(nat \<Rightarrow> bool) \<Rightarrow> pystr \<Rightarrow> pystr list" where
  "runs P [] = [[]]"
| "runs P (c # cs) = (c # cs) # (if P c then runs P cs else [])"

fun rmatch :: "re \<Rightarrow> bool \<Rightarrow> pystr \<Rightarrow> (pystr \<times> pystr list) list" where
  "rmatch Eps b s = [(s, [])]"
| "rmatch (Lit a) b s = (case s of [] \<Rightarrow> [] | c # cs \<Rightarrow> if c = a then [(cs, [])] else [])"
| "rmatch (Cls P) b s = (case s of [] \<Rightarrow> [] | c # cs \<Rightarrow> if P c then [(cs, [])] else [])"
| "rmatch (Star P) b s = map (\<lambda>r. (r, [])) (rev (runs P s))"
| "rmatch (Plus P) b s = map (\<lambda>r. (r, [])) (rev (tl (runs P s)))"
| "rmatch (LazyStar P) b s = map (\<lambda>r. (r, [])) (runs P s)"
| "rmatch (Seq x y) b s =
     concat (map (\<lambda>m. map (\<lambda>m'. (fst m', snd m @ snd m'))
                          (rmatch y (b \<and> length (fst m) = length s) (fst m)))
                 (rmatch x b s))"
| "rmatch (Alt x y) b s = rmatch x b s @ rmatch y b s"
| "rmatch (Grp x) b s = map (\<lambda>m. (fst m, take (length s - length (fst m)) s # snd m)) (rmatch x b s)"
| "rmatch (Look x) b s = (case rmatch x b s of [] \<Rightarrow> [] | m # _ \<Rightarrow> [(s, snd m)])"
| "rmatch Bos b s = (if b then [(s, [])] else [])"
| "rmatch Eos b s = (if s = [] \<or> s = [10] then [(s, [])] else [])"

fun seqs :: "re list \<Rightarrow> re" where
  "seqs [] = Eps"
| "seqs [x] = x"
| "seqs (x # xs) = Seq x (seqs xs)"

text \<open>
  The scan behind \<^verbatim>\<open>re.findall\<close> and \<^verbatim>\<open>re.sub\<close>: the successive non-overlapping matches
  from left to right, each with the unmatched text before it, and the unmatched tail.
  After an empty match the scan moves on by one character; no pattern of the source
  matches the empty text.
\<close>

function re_scan :: "re \<Rightarrow> bool \<Rightarrow> pystr \<Rightarrow> pystr \<Rightarrow> (pystr \<times> pystr list) list \<times> pystr" where
  "re_scan r b gap s =
     (case rmatch r b s of
        [] \<Rightarrow> (case s of [] \<Rightarrow> ([], gap) | c # cs \<Rightarrow> re_scan r False (gap @ [c]) cs)
      | m # _ \<Rightarrow>
          (if length (fst m) < length s
           then (let rest = re_scan r False [] (fst m) in ((gap, snd m) # fst rest, snd rest))
           else (case s of [] \<Rightarrow> ([(gap, snd m)], [])
                 | c # cs \<Rightarrow> (let rest = re_scan r False [c] cs in ((gap, snd m) # fst rest, snd rest)))))"
  by pat_completeness auto
termination
  by (relation "measure (\<lambda>(r, b, gap, s). length s)") auto

definition re_findall :: "re \<Rightarrow> pystr \<Rightarrow> pystr list list" where
  "re_findall r s = map snd (fst (re_scan r True [] s))"

definition re_sub :: "re \<Rightarrow> pystr \<Rightarrow> pystr \<Rightarrow> pystr" where
  "re_sub r repl s =
     (let sc = re_scan r True [] s in concat (map (\<lambda>m. fst m @ repl) (fst sc)) @ snd sc)"

section \<open>Passage extraction (convert_to_ragas_formats.py)\<close>

text \<open>
  \<^verbatim>\<open>chunk_pattern = r'\[([^\]]+\.\w+)\]:\s*\n([^[]*?)(?=\n\[[^\]]+\.\w+\]:|$)'\<close>
  (\<^verbatim>\<open>re.DOTALL\<close> changes nothing: the pattern has no unescaped dot).
  Code points: \<open>[\<close> 91, \<open>]\<close> 93, \<open>.\<close> 46, \<open>:\<close> 58, newline 10, space 32.
\<close>

definition chunk_pattern :: "ucd \<Rightarrow> re" where
  "chunk_pattern W =
     seqs [Lit 91, Grp (seqs [Plus (\<lambda>c. c \<noteq> 93), Lit 46, Plus (isword W)]), Lit 93, Lit 58,
           Star isspace, Lit 10,
           Grp (LazyStar (\<lambda>c. c \<noteq> 91)),
           Look (Alt (seqs [Lit 10, Lit 91, Plus (\<lambda>c. c \<noteq> 93), Lit 46, Plus (isword W),
                            Lit 93, Lit 58])
                     Eos)]"

text \<open>\<^verbatim>\<open>r'\s+'\<close>\<close>

definition whitespace_run :: re where
  "whitespace_run = Plus isspace"

text \<open>\<^verbatim>\<open>r'^\[.*?\]:\s*'\<close> (without \<^verbatim>\<open>re.DOTALL\<close> the dot is any character but newline)\<close>

definition title_marker :: re where
  "title_marker = seqs [Bos, Lit 91, LazyStar (\<lambda>c. c \<noteq> 10), Lit 93, Lit 58, Star isspace]"

text \<open>The two placeholder strings of the source, as code points.\<close>

definition no_reference_doc :: pystr where
  "no_reference_doc = [26080, 21442, 32771, 25991, 26723]"

definition reference_unclear :: pystr where
  "reference_unclear = [21442, 32771, 25991, 26723, 20449, 24687, 19981, 26126, 30830]"

text \<open>
  \<^verbatim>\<open>re.findall\<close> with the two groups of \<open>chunk_pattern\<close> yields pairs
  \<open>(filename, content)\<close>; the loop uses the content only.
\<close>

definition group2 :: "pystr list \<Rightarrow> pystr" where
  "group2 caps = (case caps of f # c # _ \<Rightarrow> c | _ \<Rightarrow> [])"

text \<open>
  The argument is \<open>None\<close> for a missing value (\<^verbatim>\<open>pd.isna\<close>) and \<open>Some s\<close> for the
  string \<open>s\<close>.
\<close>

definition extract_contexts_from_contexts_column :: "ucd \<Rightarrow> pystr option \<Rightarrow> pystr list" where
  "extract_contexts_from_contexts_column W contexts_text =
     (case contexts_text of
        None \<Rightarrow> [no_reference_doc]
      | Some t \<Rightarrow>
          if t = [] then [no_reference_doc]
          else
            (let text = strip t;
                 matches = re_findall (chunk_pattern W) text;
                 contexts =
                   (if matches \<noteq> []
                    then filter (\<lambda>cleaned_content. cleaned_content \<noteq> [])
                           (map (\<lambda>caps. re_sub whitespace_run [32] (strip (group2 caps))) matches)
                    else map (re_sub title_marker [])
                           (filter (\<lambda>chunk. chunk \<noteq> [] \<and> length chunk > 10)
                              (map strip (split_nn text))))
             in if contexts \<noteq> [] then contexts else [reference_unclear]))"

section \<open>The record table\<close>

text \<open>
  A cell of the pandas table is \<open>None\<close> when it is missing (\<^verbatim>\<open>NaN\<close>, for which
  \<^verbatim>\<open>pd.isna\<close> holds) and \<open>Some s\<close> when \<^verbatim>\<open>str\<close> of its value is \<open>s\<close>.
  \<^verbatim>\<open>str(NaN)\<close> is \<^verbatim>\<open>'nan'\<close>. A table is the list of its rows; the index of a row is its
  position (both \<^verbatim>\<open>pd.read_excel\<close> and \<^verbatim>\<open>pd.DataFrame(records)\<close> number the rows from 0).
  The four columns are those named in Chinese in the source: question, AI answer,
  reference documents and Contexts.
\<close>

type_synonym cell = "pystr option"

definition isna :: "cell \<Rightarrow> bool" where
  "isna c \<longleftrightarrow> c = None"

definition str :: "cell \<Rightarrow> pystr" where
  "str c = (case c of None \<Rightarrow> py ''nan'' | Some s \<Rightarrow> s)"

record row =
  question :: cell
  ai_answer :: cell
  reference :: cell
  contexts :: cell

type_synonym dataframe = "row list"

section \<open>Alignment filter (app.py, align\_data\_for\_evaluation)\<close>

record aligned =
  a_question :: pystr
  a_answer :: pystr
  a_contexts :: "pystr list"
  a_ground_truth :: pystr

text \<open>
  One pass of the loop body: \<open>None\<close> when the row is skipped
  (\<^verbatim>\<open>skipped_count += 1\<close>), \<open>Some\<close> of the appended entry otherwise. The
  \<^verbatim>\<open>try\<close> around the extraction has no counterpart: the extraction model raises nothing.
\<close>

definition align_row :: "ucd \<Rightarrow> row \<Rightarrow> aligned option" where
  "align_row W r =
     (if isna (question r) \<or> strip (str (question r)) = [] then None
      else
        (let q = strip (str (question r));
             answer = strip (str (ai_answer r));
             contexts_raw = strip (str (contexts r))
         in if answer \<noteq> [] \<and> contexts_raw \<noteq> [] \<and> answer \<noteq> py ''nan'' \<and> contexts_raw \<noteq> py ''nan''
            then
              (let ctxs = extract_contexts_from_contexts_column W (Some contexts_raw)
               in if ctxs \<noteq> [] \<and> list_ex (\<lambda>ctx. strip ctx \<noteq> []) ctxs
                  then Some \<lparr>a_question = q, a_answer = answer, a_contexts = ctxs,
                             a_ground_truth = answer\<rparr>
                  else None)
            else None))"

fun align_loop :: "ucd \<Rightarrow> dataframe \<Rightarrow> aligned list \<times> nat \<Rightarrow> aligned list \<times> nat" where
  "align_loop W [] acc = acc"
| "align_loop W (r # rs) (aligned_data, skipped_count) =
     (case align_row W r of
        None \<Rightarrow> align_loop W rs (aligned_data, skipped_count + 1)
      | Some a \<Rightarrow> align_loop W rs (aligned_data @ [a], skipped_count))"

text \<open>
  The function returns \<open>aligned_data\<close> and writes \<open>skipped_count\<close> (with the number kept)
  to the log; the model returns both.
\<close>

definition align_data_for_evaluation :: "ucd \<Rightarrow> dataframe \<Rightarrow> aligned list \<times> nat" where
  "align_data_for_evaluation W df = align_loop W df ([], 0)"

text \<open>The conditions of the alignment contract, as predicates on a cell.\<close>

definition blank :: "cell \<Rightarrow> bool" where
  "blank c \<longleftrightarrow> isna c \<or> strip (str c) = []"

definition unset_sentinel :: "cell \<Rightarrow> bool" where
  "unset_sentinel c \<longleftrightarrow> strip (str c) = py ''nan''"

definition decoded :: "ucd \<Rightarrow> cell \<Rightarrow> pystr list" where
  "decoded W c = extract_contexts_from_contexts_column W (Some (strip (str c)))"

definition zero_passages :: "ucd \<Rightarrow> cell \<Rightarrow> bool" where
  "zero_passages W c \<longleftrightarrow> list_all (\<lambda>ctx. strip ctx = []) (decoded W c)"

text \<open>The skip condition as the alignment contract words it.\<close>

definition skip_as_stated :: "ucd \<Rightarrow> row \<Rightarrow> bool" where
  "skip_as_stated W r \<longleftrightarrow>
     blank (question r) \<or> (blank (ai_answer r) \<or> unset_sentinel (ai_answer r)) \<or>
     (blank (contexts r) \<or> zero_passages W (contexts r))"

text \<open>The skip condition with the sentinel test that the code also applies to the context.\<close>

definition skip_row :: "ucd \<Rightarrow> row \<Rightarrow> bool" where
  "skip_row W r \<longleftrightarrow>
     blank (question r) \<or> (blank (ai_answer r) \<or> unset_sentinel (ai_answer r)) \<or>
     (blank (contexts r) \<or> unset_sentinel (contexts r) \<or> zero_passages W (contexts r))"

definition emit :: "ucd \<Rightarrow> row \<Rightarrow> aligned" where
  "emit W r =
     \<lparr>a_question = strip (str (question r)), a_answer = strip (str (ai_answer r)),
      a_contexts = decoded W (contexts r), a_ground_truth = strip (str (ai_answer r))\<rparr>"

section \<open>Checkpoint store (app.py, save\_processing\_state and load\_processing\_state)\<close>

text \<open>
  The dictionary that \<^verbatim>\<open>save_processing_state\<close> pickles: the file hash, the four
  essential columns of every row, the two progress sets as lists, and the time stamp.
\<close>

record state_data =
  sd_file_hash :: pystr
  sd_df :: "row list"
  sd_answer_progress :: "nat list"
  sd_context_progress :: "nat list"
  sd_timestamp :: pystr

text \<open>
  The state directory maps a file hash to the content of \<^verbatim>\<open>state_<hash>.pkl\<close>, if that
  file exists. A file holds what a save pickled (\<open>Pickled\<close>); or a pickle of another
  object that has a \<^verbatim>\<open>'timestamp'\<close> which can be sliced but no \<^verbatim>\<open>'df'\<close>
  (\<open>PickledOther\<close>); or a pickle of an object on which the lookup of \<^verbatim>\<open>'timestamp'\<close>
  raises (\<open>Malformed\<close>); or bytes that cannot be opened or unpickled, such as a truncated
  file (\<open>Corrupt\<close>).
\<close>

datatype file_content = Pickled state_data | PickledOther | Malformed | Corrupt

text \<open>
  What the load hands to its caller when it does not return \<^verbatim>\<open>None\<close>: the unpickled
  object, which is a checkpoint or not.
\<close>

datatype loaded = Checkpoint state_data | NoCheckpoint

type_synonym store = "pystr \<rightharpoonup> file_content"

datatype exn = OSError | UnpicklingError | LookupError | ZeroDivisionError | IndexError

text \<open>The body of the \<^verbatim>\<open>try\<close> of \<^verbatim>\<open>load_processing_state\<close>.\<close>

definition load_body :: "store \<Rightarrow> pystr \<Rightarrow> exn + loaded option" where
  "load_body fs file_hash =
     (case fs file_hash of
        None \<Rightarrow> Inr None
      | Some Corrupt \<Rightarrow> Inl UnpicklingError
      | Some Malformed \<Rightarrow> Inl LookupError
      | Some PickledOther \<Rightarrow> Inr (Some NoCheckpoint)
      | Some (Pickled state) \<Rightarrow> Inr (Some (Checkpoint state)))"

text \<open>\<^verbatim>\<open>except Exception\<close>: log and return \<^verbatim>\<open>None\<close>.\<close>

definition load_processing_state :: "store \<Rightarrow> pystr \<Rightarrow> exn + loaded option" where
  "load_processing_state fs file_hash =
     (case load_body fs file_hash of Inl e \<Rightarrow> Inr None | Inr state \<Rightarrow> Inr state)"

text \<open>
  What the callers of the load do with its result: \<^verbatim>\<open>if previous_state:\<close> and then
  \<^verbatim>\<open>previous_state['df']\<close> and the two progress lists. On an object that is no checkpoint
  the lookup raises \<^verbatim>\<open>KeyError\<close>, which no caller catches.
\<close>

definition state_fields :: "loaded option \<Rightarrow> exn + state_data option" where
  "state_fields previous_state =
     (case previous_state of
        None \<Rightarrow> Inr None
      | Some NoCheckpoint \<Rightarrow> Inl LookupError
      | Some (Checkpoint state) \<Rightarrow> Inr (Some state))"

text \<open>
  What the environment does to one save. \<open>NoFault\<close>: nothing. \<open>FailBeforeSweep\<close>:
  \<^verbatim>\<open>os.makedirs\<close> raises, before anything is touched. \<open>FailAfterSweep\<close>: an exception
  after the two clean-up calls and before the file is open (the selection of the columns,
  or \<^verbatim>\<open>open\<close> itself). \<open>FailWhileWriting\<close>: the write raises after
  \<^verbatim>\<open>open(state_file, 'wb')\<close> has truncated the file. \<open>FailAfterWrite\<close>: the file is
  written and closed, and reading its size or logging raises. Every fault is caught by
  \<^verbatim>\<open>except Exception\<close>, and the save returns \<^verbatim>\<open>False\<close>.
\<close>

datatype io_fault = NoFault | FailBeforeSweep | FailAfterSweep | FailWhileWriting | FailAfterWrite

text \<open>
  Python's \<^verbatim>\<open>set\<close> of indices is a finite set; \<^verbatim>\<open>list(s)\<close> lists it in an order
  that Python leaves open (here: ascending), and \<^verbatim>\<open>set(l)\<close> is \<open>fset_of_list l\<close>.
\<close>

definition list_of_set :: "nat fset \<Rightarrow> nat list" where
  "list_of_set s = sorted_list_of_fset s"

text \<open>
  \<open>sweep\<close> stands for the two clean-up calls that precede the write
  (\<^verbatim>\<open>cleanup_old_state_files\<close>, \<^verbatim>\<open>cleanup_temp_excel_files\<close>): they delete files by age,
  directory size and file count, and swallow their own exceptions. The sweep is any
  function on the store; where a result depends on what it keeps, the result says so.
  \<open>now\<close> is \<^verbatim>\<open>datetime.now().isoformat()\<close>. The result is the store afterwards and the
  returned flag.
\<close>

definition save_processing_state ::
  "io_fault \<Rightarrow> (store \<Rightarrow> store) \<Rightarrow> pystr \<Rightarrow> store \<Rightarrow> pystr \<Rightarrow> dataframe \<Rightarrow> nat fset \<Rightarrow> nat fset
     \<Rightarrow> store \<times> bool" where
  "save_processing_state fault sweep now fs file_hash df answer_progress context_progress =
     (let state = \<lparr>sd_file_hash = file_hash, sd_df = df,
                   sd_answer_progress = list_of_set answer_progress,
                   sd_context_progress = list_of_set context_progress,
                   sd_timestamp = now\<rparr>
      in case fault of
           FailBeforeSweep \<Rightarrow> (fs, False)
         | FailAfterSweep \<Rightarrow> (sweep fs, False)
         | FailWhileWriting \<Rightarrow> ((sweep fs)(file_hash \<mapsto> Corrupt), False)
         | FailAfterWrite \<Rightarrow> ((sweep fs)(file_hash \<mapsto> Pickled state), False)
         | NoFault \<Rightarrow> ((sweep fs)(file_hash \<mapsto> Pickled state), True))"

section \<open>Task orchestrator (app.py, process\_method2\_file)\<close>

text \<open>
  Merging a loaded checkpoint into the freshly read table: the loop over
  \<^verbatim>\<open>saved_df.iterrows()\<close>, with the table and the two progress sets as state.
\<close>

type_synonym progress = "nat fset"

definition merge_step :: "nat \<Rightarrow> row \<Rightarrow> dataframe \<times> progress \<times> progress \<Rightarrow> dataframe \<times> progress \<times> progress" where
  "merge_step idx saved st =
     (case st of (df, answer_progress, context_progress) \<Rightarrow>
        if idx < length df then
          (let (df1, ap1) =
                 (if \<not> isna (ai_answer saved) \<and> strip (str (ai_answer saved)) \<noteq> []
                  then (df[idx := (df ! idx)\<lparr>ai_answer := ai_answer saved, reference := reference saved\<rparr>],
                        finsert idx answer_progress)
                  else (df, answer_progress));
               (df2, cp2) =
                 (if \<not> isna (contexts saved) \<and> strip (str (contexts saved)) \<noteq> []
                  then (df1[idx := (df1 ! idx)\<lparr>contexts := contexts saved\<rparr>], finsert idx context_progress)
                  else (df1, context_progress))
           in (df2, ap1, cp2))
        else (df, answer_progress, context_progress))"

fun merge_loop :: "nat \<Rightarrow> row list \<Rightarrow> dataframe \<times> progress \<times> progress \<Rightarrow> dataframe \<times> progress \<times> progress" where
  "merge_loop idx [] st = st"
| "merge_loop idx (saved # rest) st = merge_loop (idx + 1) rest (merge_step idx saved st)"

text \<open>
  \<^verbatim>\<open>if previous_state:\<close> with its body; without a checkpoint the table is as read and both
  progress sets are empty.
\<close>

definition restore :: "state_data option \<Rightarrow> dataframe \<Rightarrow> dataframe \<times> progress \<times> progress" where
  "restore previous_state df =
     (case previous_state of
        None \<Rightarrow> (df, {||}, {||})
      | Some state \<Rightarrow>
          merge_loop 0 (sd_df state)
            (df, fset_of_list (sd_answer_progress state), fset_of_list (sd_context_progress state)))"

text \<open>A task is the pair of the row index and the stripped question.\<close>

type_synonym task = "nat \<times> pystr"

fun build_tasks ::
  "progress \<Rightarrow> progress \<Rightarrow> nat \<Rightarrow> row list \<Rightarrow> task list \<times> task list \<Rightarrow> task list \<times> task list" where
  "build_tasks answer_progress context_progress index [] acc = acc"
| "build_tasks answer_progress context_progress index (r # rows) (answer_tasks, context_tasks) =
     (if isna (question r) \<or> strip (str (question r)) = []
      then build_tasks answer_progress context_progress (index + 1) rows (answer_tasks, context_tasks)
      else
        (let q = strip (str (question r));
             answer_tasks' =
               (if index |\<notin>| answer_progress \<and> (isna (ai_answer r) \<or> strip (str (ai_answer r)) = [])
                then answer_tasks @ [(index, q)] else answer_tasks);
             context_tasks' =
               (if index |\<notin>| context_progress \<and> (isna (contexts r) \<or> strip (str (contexts r)) = [])
                then context_tasks @ [(index, q)] else context_tasks)
         in build_tasks answer_progress context_progress (index + 1) rows (answer_tasks', context_tasks')))"

text \<open>
  The result of a future: the value returned by the worker, or an exception raised by
  \<^verbatim>\<open>future.result()\<close>. \<^verbatim>\<open>query_answer\<close> returns a dictionary with the answer, the
  reference and the success flag; \<^verbatim>\<open>query_contexts\<close> returns the pair of the text and
  the success flag.
\<close>

datatype 'a future = Returns 'a | Raises

record answer_result =
  ar_ai_answer :: pystr
  ar_reference :: pystr
  ar_success :: bool

text \<open>
  The environment of one run: what each submitted future yields, the order in which
  \<^verbatim>\<open>as_completed\<close> hands the futures over, and for the n-th save of the run its fault
  and its time stamp.
\<close>

record env =
  answer_future :: "task \<Rightarrow> answer_result future"
  context_future :: "task \<Rightarrow> (pystr \<times> bool) future"
  answer_order :: "task list \<Rightarrow> task list"
  context_order :: "task list \<Rightarrow> task list"
  save_fault :: "nat \<Rightarrow> io_fault"
  clock :: "nat \<Rightarrow> pystr"
  sweep_files :: "store \<Rightarrow> store"

text \<open>The mutable state of a run.\<close>

record run =
  fs :: store
  df :: dataframe
  answer_progress :: progress
  context_progress :: progress
  successful_answers :: nat
  successful_contexts :: nat
  completed_tasks :: nat
  saves :: nat

definition save_run :: "env \<Rightarrow> pystr \<Rightarrow> run \<Rightarrow> run" where
  "save_run e file_hash s =
     s\<lparr>fs := fst (save_processing_state (save_fault e (saves s)) (sweep_files e) (clock e (saves s))
                     (fs s) file_hash (df s) (answer_progress s) (context_progress s)),
       saves := saves s + 1\<rparr>"

definition apply_answer :: "nat \<Rightarrow> answer_result future \<Rightarrow> run \<Rightarrow> run" where
  "apply_answer index fut s =
     (case fut of
        Raises \<Rightarrow> s
      | Returns result \<Rightarrow>
          if ar_success result
          then s\<lparr>df := (df s)[index := (df s ! index)\<lparr>ai_answer := Some (ar_ai_answer result),
                                                       reference := Some (ar_reference result)\<rparr>],
                 answer_progress := finsert index (answer_progress s),
                 successful_answers := successful_answers s + 1\<rparr>
          else s)"

definition apply_context :: "nat \<Rightarrow> (pystr \<times> bool) future \<Rightarrow> run \<Rightarrow> run" where
  "apply_context index fut s =
     (case fut of
        Raises \<Rightarrow> s
      | Returns (ctxs, success) \<Rightarrow>
          if success
          then s\<lparr>df := (df s)[index := (df s ! index)\<lparr>contexts := Some ctxs\<rparr>],
                 context_progress := finsert index (context_progress s),
                 successful_contexts := successful_contexts s + 1\<rparr>
          else s)"

text \<open>
  The two loops over \<^verbatim>\<open>as_completed\<close>, given the futures in completion order;
  \<open>save_counter\<close> counts the futures handled so far in this loop.
\<close>

fun drain_answers :: "env \<Rightarrow> pystr \<Rightarrow> nat \<Rightarrow> task list \<Rightarrow> run \<Rightarrow> run" where
  "drain_answers e file_hash save_counter [] s = s"
| "drain_answers e file_hash save_counter (t # ts) s =
     (let s1 = apply_answer (fst t) (answer_future e t) s;
          s2 = s1\<lparr>completed_tasks := completed_tasks s1 + 1\<rparr>;
          s3 = (if (save_counter + 1) mod 10 = 0 then save_run e file_hash s2 else s2)
      in drain_answers e file_hash (save_counter + 1) ts s3)"

fun drain_contexts :: "env \<Rightarrow> pystr \<Rightarrow> nat \<Rightarrow> task list \<Rightarrow> run \<Rightarrow> run" where
  "drain_contexts e file_hash save_counter [] s = s"
| "drain_contexts e file_hash save_counter (t # ts) s =
     (let s1 = apply_context (fst t) (context_future e t) s;
          s2 = s1\<lparr>completed_tasks := completed_tasks s1 + 1\<rparr>;
          s3 = (if (save_counter + 1) mod 10 = 0 then save_run e file_hash s2 else s2)
      in drain_contexts e file_hash (save_counter + 1) ts s3)"

text \<open>
  What a run leaves behind: the final state, the two task lists built at its start, and
  the aligned data it returns (\<^verbatim>\<open>None\<close> when that list is empty).
\<close>

record outcome =
  final :: run
  answer_tasks :: "task list"
  context_tasks :: "task list"
  ragas_data :: "aligned list option"

text \<open>
  \<open>file_hash\<close> and \<open>uploaded\<close> are the MD5 digest of the uploaded bytes and the table
  read from them, the three result columns created empty where the file lacks them.
\<close>

definition process_method2_file :: "ucd \<Rightarrow> env \<Rightarrow> store \<Rightarrow> pystr \<Rightarrow> dataframe \<Rightarrow> exn + outcome" where
  "process_method2_file W e store0 file_hash uploaded =
     (case load_processing_state store0 file_hash of
        Inl x \<Rightarrow> Inl x
      | Inr found \<Rightarrow>
        (case state_fields found of
           Inl x \<Rightarrow> Inl x
         | Inr previous_state \<Rightarrow>
          (let (df0, ap0, cp0) = restore previous_state uploaded;
               (atasks, ctasks) = build_tasks ap0 cp0 0 df0 ([], []);
               s0 = \<lparr>fs = store0, df = df0, answer_progress = ap0, context_progress = cp0,
                     successful_answers = 0, successful_contexts = 0, completed_tasks = 0,
                     saves = 0\<rparr>;
               s1 = drain_answers e file_hash 0 (answer_order e atasks) s0;
               s2 = drain_contexts e file_hash 0 (context_order e ctasks) s1;
               s3 = save_run e file_hash s2;
               ragas = fst (align_data_for_evaluation W (df s3))
           in Inr \<lparr>final = s3, answer_tasks = atasks, context_tasks = ctasks,
                   ragas_data = (if ragas = [] then None else Some ragas)\<rparr>)))"

section \<open>Evaluation with retries (evaluate\_dataset.py, DatasetEvaluator)\<close>

text \<open>
  The scoring collaborator (\<^verbatim>\<open>ragas.evaluate\<close>) and the random generator are outside the
  repository. \<open>scorer n batch\<close> is what the n-th call of the collaborator does on
  \<open>batch\<close>: it raises an exception with a message (\<open>Inl\<close>) or returns a result;
  \<open>rng n\<close> is the n-th value of \<^verbatim>\<open>random.random()\<close>. Times are reals rather than
  floats. The effects are kept in a trace: the calls of the collaborator with their batch,
  and the two call sites of \<^verbatim>\<open>time.sleep\<close> (the jitter before an attempt and the wait
  after a failed one).
\<close>

datatype event = Evaluate "aligned list" | Jitter real | Wait real

record world =
  calls :: nat
  draws :: nat
  trace :: "event list"

type_synonym 'r scorer = "nat \<Rightarrow> aligned list \<Rightarrow> pystr + 'r"

definition uniform :: "(nat \<Rightarrow> real) \<Rightarrow> real \<Rightarrow> real \<Rightarrow> world \<Rightarrow> real \<times> world" where
  "uniform rng a b w = (a + (b - a) * rng (draws w), w\<lparr>draws := draws w + 1\<rparr>)"

definition emit_event :: "event \<Rightarrow> world \<Rightarrow> world" where
  "emit_event ev w = w\<lparr>trace := trace w @ [ev]\<rparr>"

definition evaluate :: "'r scorer \<Rightarrow> aligned list \<Rightarrow> world \<Rightarrow> (pystr + 'r) \<times> world" where
  "evaluate scorer batch w =
     (scorer (calls w) batch, emit_event (Evaluate batch) (w\<lparr>calls := calls w + 1\<rparr>))"

definition base_delay :: real where
  "base_delay = 5"

text \<open>The classification of the error text in \<^verbatim>\<open>_evaluate_batch\<close>, in the order of the source.\<close>

definition connection_signature :: "pystr \<Rightarrow> bool" where
  "connection_signature error_msg \<longleftrightarrow>
     contains (py ''Connection error'') error_msg \<or> contains (py ''timeout'') (lower error_msg)"

definition rate_limit_signature :: "pystr \<Rightarrow> bool" where
  "rate_limit_signature error_msg \<longleftrightarrow>
     contains (py ''rate'') (lower error_msg) \<or> contains (py ''limit'') (lower error_msg)"

definition wait_time :: "(nat \<Rightarrow> real) \<Rightarrow> pystr \<Rightarrow> nat \<Rightarrow> world \<Rightarrow> real \<times> world" where
  "wait_time rng error_msg attempt w =
     (if connection_signature error_msg
      then (let (u, w') = uniform rng 5 15 w in (base_delay * 3 ^ attempt + u, w'))
      else if rate_limit_signature error_msg
      then (let (u, w') = uniform rng 10 30 w in (base_delay * 4 ^ attempt + u, w'))
      else (let (u, w') = uniform rng 1 5 w in (base_delay + u, w')))"

text \<open>
  \<^verbatim>\<open>_evaluate_batch\<close>: the loop \<^verbatim>\<open>for attempt in range(max_retries)\<close> from \<open>attempt\<close> on.
  \<^verbatim>\<open>attempt < max_retries - 1\<close> is written \<open>attempt + 1 < max_retries\<close>.
\<close>

function evaluate_batch_loop ::
  "'r scorer \<Rightarrow> (nat \<Rightarrow> real) \<Rightarrow> aligned list \<Rightarrow> nat \<Rightarrow> nat \<Rightarrow> nat \<Rightarrow> world \<Rightarrow> 'r option \<times> world" where
  "evaluate_batch_loop scorer rng batch_dataset batch_num max_retries attempt w =
     (if attempt < max_retries then
        (let w1 = (if batch_num > 1
                   then (let (jitter, wj) = uniform rng 0.5 2.0 w in emit_event (Jitter jitter) wj)
                   else w);
             (res, w2) = evaluate scorer batch_dataset w1
         in case res of
              Inr result \<Rightarrow> (Some result, w2)
            | Inl error_msg \<Rightarrow>
                (let w3 = (if attempt + 1 < max_retries
                           then (let (t, wt) = wait_time rng error_msg attempt w2
                                 in emit_event (Wait t) wt)
                           else w2)
                 in evaluate_batch_loop scorer rng batch_dataset batch_num max_retries (attempt + 1) w3))
      else (None, w))"
  by pat_completeness auto
termination
  by (relation "measure (\<lambda>(scorer, rng, batch_dataset, batch_num, max_retries, attempt, w).
                            max_retries - attempt)") auto

definition evaluate_batch ::
  "'r scorer \<Rightarrow> (nat \<Rightarrow> real) \<Rightarrow> aligned list \<Rightarrow> nat \<Rightarrow> nat \<Rightarrow> world \<Rightarrow> 'r option \<times> world" where
  "evaluate_batch scorer rng batch_dataset batch_num max_retries w =
     evaluate_batch_loop scorer rng batch_dataset batch_num max_retries 0 w"

text \<open>
  \<^verbatim>\<open>run_evaluation\<close>: the retry loop of the one-shot evaluation. The last failure is
  raised again (\<open>Inl\<close> of its message); with no attempt at all the function falls off its
  end and returns \<^verbatim>\<open>None\<close>.
\<close>

function run_evaluation_loop ::
  "'r scorer \<Rightarrow> aligned list \<Rightarrow> nat \<Rightarrow> nat \<Rightarrow> world \<Rightarrow> (pystr + 'r option) \<times> world" where
  "run_evaluation_loop scorer dataset max_retries attempt w =
     (if attempt < max_retries then
        (let (res, w1) = evaluate scorer dataset w
         in case res of
              Inr result \<Rightarrow> (Inr (Some result), w1)
            | Inl error_msg \<Rightarrow>
                if attempt + 1 < max_retries
                then run_evaluation_loop scorer dataset max_retries (attempt + 1)
                       (emit_event (Wait (real ((attempt + 1) * 10))) w1)
                else (Inl error_msg, w1))
      else (Inr None, w))"
  by pat_completeness auto
termination
  by (relation "measure (\<lambda>(scorer, dataset, max_retries, attempt, w). max_retries - attempt)") auto

definition run_evaluation :: "'r scorer \<Rightarrow> aligned list \<Rightarrow> nat \<Rightarrow> world \<Rightarrow> (pystr + 'r option) \<times> world" where
  "run_evaluation scorer dataset max_retries w = run_evaluation_loop scorer dataset max_retries 0 w"

text \<open>\<^verbatim>\<open>_merge_results\<close>: \<^verbatim>\<open>results_list[0]\<close>, whatever the length of the list.\<close>

definition merge_results :: "'r list \<Rightarrow> exn + 'r" where
  "merge_results results_list = (case results_list of [] \<Rightarrow> Inl IndexError | r # _ \<Rightarrow> Inr r)"

text \<open>The slice \<^verbatim>\<open>[start_idx:end_idx]\<close> of batch \<open>i\<close>.\<close>

definition batch_slice :: "aligned list \<Rightarrow> nat \<Rightarrow> nat \<Rightarrow> aligned list" where
  "batch_slice dataset batch_size i =
     (let start_idx = i * batch_size;
          end_idx = min ((i + 1) * batch_size) (length dataset)
      in take (end_idx - start_idx) (drop start_idx dataset))"

text \<open>
  \<^verbatim>\<open>run_batch_evaluation\<close>: the loop over the batch numbers, with \<open>all_results\<close>,
  \<open>successful_batches\<close> and the world as state. \<^verbatim>\<open>_evaluate_batch\<close> is called with its
  default \<^verbatim>\<open>max_retries = 3\<close>.
\<close>

fun batches_loop ::
  "'r scorer \<Rightarrow> (nat \<Rightarrow> real) \<Rightarrow> aligned list \<Rightarrow> nat \<Rightarrow> nat list \<Rightarrow> 'r list \<times> nat \<times> world
     \<Rightarrow> 'r list \<times> nat \<times> world" where
  "batches_loop scorer rng dataset batch_size [] acc = acc"
| "batches_loop scorer rng dataset batch_size (i # is) (all_results, successful_batches, w) =
     (let (result, w') = evaluate_batch scorer rng (batch_slice dataset batch_size i) (i + 1) 3 w
      in case result of
           Some r \<Rightarrow> batches_loop scorer rng dataset batch_size is
                       (all_results @ [r], successful_batches + 1, w')
         | None \<Rightarrow> batches_loop scorer rng dataset batch_size is
                     (all_results, successful_batches, w'))"

definition run_batch_evaluation ::
  "'r scorer \<Rightarrow> (nat \<Rightarrow> real) \<Rightarrow> aligned list \<Rightarrow> nat \<Rightarrow> world \<Rightarrow> (exn + 'r option) \<times> world" where
  "run_batch_evaluation scorer rng dataset batch_size w =
     (if batch_size = 0 then (Inl ZeroDivisionError, w)
      else
        (let total_samples = length dataset;
             num_batches = (total_samples + batch_size - 1) div batch_size;
             (all_results, successful_batches, w') =
                batches_loop scorer rng dataset batch_size [0..<num_batches] ([], 0, w)
         in if all_results = [] then (Inr None, w')
            else (case merge_results all_results of
                    Inl x \<Rightarrow> (Inl x, w')
                  | Inr merged \<Rightarrow> (Inr (Some merged), w'))))"

section \<open>Evaluation entry points of the web application (app.py)\<close>

text \<open>
  Every rejection of the source shows a message and returns \<^verbatim>\<open>None\<close>; the model names
  the message. \<open>NoMetricSelected\<close>: no metric selected; \<open>NoData\<close>: nothing to evaluate;
  \<open>NoValidSamples\<close>: no sample survived the integrity check; \<open>NoCompleteData\<close>: the
  alignment kept no row; \<open>EvaluationError\<close>: an exception inside the \<^verbatim>\<open>try\<close>, with its
  message.
\<close>

datatype ui_error = NoMetricSelected | NoData | NoValidSamples | NoCompleteData | EvaluationError pystr

definition metric_map :: "pystr list" where
  "metric_map = [py ''faithfulness'', py ''answer_relevancy'', py ''context_precision'',
                 py ''context_recall'', py ''answer_similarity'', py ''answer_correctness'']"

definition valid_sample :: "aligned \<Rightarrow> bool" where
  "valid_sample item \<longleftrightarrow>
     \<not> (a_question item = [] \<or> a_answer item = [] \<or> a_contexts item = []) \<and>
     \<not> (a_contexts item = [] \<or> list_all (\<lambda>ctx. strip ctx = []) (a_contexts item))"

text \<open>
  \<open>setup\<close> is \<open>Some msg\<close> when the preparation inside the \<^verbatim>\<open>try\<close> raises (a failed
  import, no API key, a model that cannot be built). \<open>score batch metrics\<close> is the one
  call of the collaborator. The second component counts the calls made.
\<close>

definition evaluate_dataset ::
  "pystr option \<Rightarrow> (aligned list \<Rightarrow> pystr list \<Rightarrow> pystr + 'r) \<Rightarrow> aligned list \<Rightarrow> pystr list
     \<Rightarrow> (ui_error + 'r) \<times> nat" where
  "evaluate_dataset setup score evaluation_data selected_metrics =
     (if evaluation_data = [] then (Inl NoData, 0)
      else
        (let valid_samples = filter valid_sample evaluation_data
         in if valid_samples = [] then (Inl NoValidSamples, 0)
            else
              (case setup of
                 Some msg \<Rightarrow> (Inl (EvaluationError msg), 0)
               | None \<Rightarrow>
                   (let metrics = filter (\<lambda>metric. metric \<in> set metric_map) selected_metrics
                    in if metrics = [] then (Inl NoMetricSelected, 0)
                       else (case score valid_samples metrics of
                               Inl msg \<Rightarrow> (Inl (EvaluationError msg), 1)
                             | Inr result \<Rightarrow> (Inr result, 1))))))"

text \<open>
  \<^verbatim>\<open>evaluate_partial_data\<close>: \<open>uploaded\<close> is the table read from the file; a stored
  checkpoint replaces it.
\<close>

definition evaluate_partial_data ::
  "ucd \<Rightarrow> pystr option \<Rightarrow> (aligned list \<Rightarrow> pystr list \<Rightarrow> pystr + 'r) \<Rightarrow> store \<Rightarrow> pystr \<Rightarrow> dataframe
     \<Rightarrow> pystr list \<Rightarrow> exn + (ui_error + 'r) \<times> nat" where
  "evaluate_partial_data W setup score store0 file_hash uploaded selected_metrics =
     (if selected_metrics = [] then Inr (Inl NoMetricSelected, 0)
      else
        (case load_processing_state store0 file_hash of
           Inl x \<Rightarrow> Inl x
         | Inr found \<Rightarrow>
           (case state_fields found of
              Inl x \<Rightarrow> Inl x
            | Inr previous_state \<Rightarrow>
             (let table = (case previous_state of None \<Rightarrow> uploaded | Some state \<Rightarrow> sd_df state);
                  evaluation_data = fst (align_data_for_evaluation W table)
              in if evaluation_data = [] then Inr (Inl NoCompleteData, 0)
                 else Inr (evaluate_dataset setup score evaluation_data selected_metrics)))))"

section \<open>Notions used to state the results on the retry loops\<close>

text \<open>
  The wait after a failed attempt as the executor's contract gives it, for the value
  \<open>u\<close> of \<^verbatim>\<open>random.random()\<close> behind \<^verbatim>\<open>random.uniform(a, b) = a + (b - a) * u\<close>:
  base * 3 ^ attempt + uniform(5, 15) for a connection or timeout error,
  base * 4 ^ attempt + uniform(10, 30) for a rate or limit error,
  base + uniform(1, 5) otherwise, with base = 5 and the attempts counted from 0. The
  classes are tested in this order.
\<close>

definition classified_wait :: "pystr \<Rightarrow> nat \<Rightarrow> real \<Rightarrow> real" where
  "classified_wait error_msg attempt u =
     (if connection_signature error_msg then 5 * 3 ^ attempt + (5 + (15 - 5) * u)
      else if rate_limit_signature error_msg then 5 * 4 ^ attempt + (10 + (30 - 10) * u)
      else 5 + (1 + (5 - 1) * u))"

text \<open>
  The number of random values that one failed attempt with a wait draws, and the events
  of the attempts of one batch: the jitter (for every batch but the first), the call, and
  after a failure the wait. \<open>d\<close> is the number of values drawn before the attempt.
\<close>

definition draws_per_attempt :: "nat \<Rightarrow> nat" where
  "draws_per_attempt batch_num = (if batch_num > 1 then 2 else 1)"

definition jitter_events :: "(nat \<Rightarrow> real) \<Rightarrow> nat \<Rightarrow> nat \<Rightarrow> event list" where
  "jitter_events rng batch_num d = (if batch_num > 1 then [Jitter (0.5 + (2.0 - 0.5) * rng d)] else [])"

definition failed_attempt ::
  "(nat \<Rightarrow> real) \<Rightarrow> aligned list \<Rightarrow> nat \<Rightarrow> nat \<Rightarrow> pystr \<Rightarrow> nat \<Rightarrow> event list" where
  "failed_attempt rng batch batch_num d error_msg attempt =
     jitter_events rng batch_num d @
     [Evaluate batch,
      Wait (classified_wait error_msg attempt (rng (d + (draws_per_attempt batch_num - 1))))]"

definition last_attempt :: "(nat \<Rightarrow> real) \<Rightarrow> aligned list \<Rightarrow> nat \<Rightarrow> nat \<Rightarrow> event list" where
  "last_attempt rng batch batch_num d = jitter_events rng batch_num d @ [Evaluate batch]"

text \<open>
  The runs of the batches one after the other, each started in the world the previous one
  left, and the first result among their outcomes.
\<close>

fun chunk_runs ::
  "'r scorer \<Rightarrow> (nat \<Rightarrow> real) \<Rightarrow> aligned list \<Rightarrow> nat \<Rightarrow> nat list \<Rightarrow> world \<Rightarrow> ('r option \<times> world) list" where
  "chunk_runs scorer rng dataset batch_size [] w = []"
| "chunk_runs scorer rng dataset batch_size (i # is) w =
     evaluate_batch scorer rng (batch_slice dataset batch_size i) (i + 1) 3 w #
     chunk_runs scorer rng dataset batch_size is
       (snd (evaluate_batch scorer rng (batch_slice dataset batch_size i) (i + 1) 3 w))"

fun first_success :: "'r option list \<Rightarrow> 'r option" where
  "first_success [] = None"
| "first_success (Some r # rest) = Some r"
| "first_success (None # rest) = first_success rest"

section \<open>Concrete inputs\<close>

text \<open>
  An instance of the Unicode parameter for the concrete evaluations below: beyond ASCII,
  the CJK unified ideographs (U+4E00 to U+9FFF) count as alphanumeric.
\<close>

definition cjk :: ucd where
  "cjk c \<longleftrightarrow> 19968 \<le> c \<and> c \<le> 40959"

text \<open>A row from its four cells.\<close>

definition mk_row :: "cell \<Rightarrow> cell \<Rightarrow> cell \<Rightarrow> cell \<Rightarrow> row" where
  "mk_row q a r c = \<lparr>question = q, ai_answer = a, reference = r, contexts = c\<rparr>"

section \<open>Notions used to state the results\<close>

text \<open>
  The row that the merge on load leaves at an index that the checkpoint covers: a
  checkpoint answer that is not blank replaces the answer and, with it, the reference; a
  checkpoint context that is not blank replaces the context.
\<close>

definition merged_row :: "row \<Rightarrow> row \<Rightarrow> row" where
  "merged_row saved fresh =
     \<lparr>question = question fresh,
      ai_answer = (if blank (ai_answer saved) then ai_answer fresh else ai_answer saved),
      reference = (if blank (ai_answer saved) then reference fresh else reference saved),
      contexts = (if blank (contexts saved) then contexts fresh else contexts saved)\<rparr>"

text \<open>
  The condition for a task as the orchestrator's contract words it: the question is not
  empty, the progress set does not mark the index done, and the field is still empty.
\<close>

definition needs_fetch :: "progress \<Rightarrow> (row \<Rightarrow> cell) \<Rightarrow> dataframe \<Rightarrow> nat \<Rightarrow> bool" where
  "needs_fetch done field table i \<longleftrightarrow>
     \<not> blank (question (table ! i)) \<and> i |\<notin>| done \<and> blank (field (table ! i))"

definition task_of :: "dataframe \<Rightarrow> nat \<Rightarrow> task" where
  "task_of table i = (i, strip (str (question (table ! i))))"

text \<open>A future that delivers: it returns, and with the success flag set.\<close>

definition answer_ok :: "env \<Rightarrow> task \<Rightarrow> bool" where
  "answer_ok e t = (case answer_future e t of Returns result \<Rightarrow> ar_success result | Raises \<Rightarrow> False)"

definition context_ok :: "env \<Rightarrow> task \<Rightarrow> bool" where
  "context_ok e t = (case context_future e t of Returns result \<Rightarrow> snd result | Raises \<Rightarrow> False)"

text \<open>Three rows that have a question and nothing else.\<close>

definition three_questions :: dataframe where
  "three_questions =
     [mk_row (Some (py ''q1'')) None None None,
      mk_row (Some (py ''q2'')) None None None,
      mk_row (Some (py ''q3'')) None None None]"

text \<open>
  An environment in which the answer request for the second row (index 1) fails as
  \<^verbatim>\<open>query_answer\<close> reports a failure, every other request succeeds, the answers
  complete in reverse order of submission, and no save fails.
\<close>

definition second_answer_fails :: env where
  "second_answer_fails =
     \<lparr>answer_future =
        (\<lambda>t. if fst t = 1
             then Returns \<lparr>ar_ai_answer = [], ar_reference = [], ar_success = False\<rparr>
             else Returns \<lparr>ar_ai_answer = py ''an answer'', ar_reference = py ''- a.doc'',
                           ar_success = True\<rparr>),
      context_future = (\<lambda>t. Returns (py ''[a.txt]:\<newline>a passage'', True)),
      answer_order = rev,
      context_order = (\<lambda>ts. ts),
      save_fault = (\<lambda>n. NoFault),
      clock = (\<lambda>n. py ''2024-05-01T10:00:00''),
      sweep_files = (\<lambda>files. files)\<rparr>"

text \<open>
  A collaborator that raises a rate-limit error on its first two calls and returns the
  result 42 from the third on; a random generator that always yields one half; the world
  before anything has happened.
\<close>

definition rate_limited_twice :: "nat scorer" where
  "rate_limited_twice n batch = (if n < 2 then Inl (py ''Rate limit exceeded'') else Inr 42)"

definition half :: "nat \<Rightarrow> real" where
  "half n = 1 / 2"

definition world0 :: world where
  "world0 = \<lparr>calls = 0, draws = 0, trace = []\<rparr>"

text \<open>A batch of one aligned record.\<close>

definition one_sample :: "aligned list" where
  "one_sample = [\<lparr>a_question = py ''q'', a_answer = py ''a'', a_contexts = [py ''a passage''],
                  a_ground_truth = py ''a''\<rparr>]"

text \<open>
  A collaborator whose first three calls raise a connection error and whose later calls
  return their call number.
\<close>

definition three_failures :: "nat scorer" where
  "three_failures n batch = (if n < 3 then Inl (py ''Connection error.'') else Inr n)"

section \<open>Alignment filter: results\<close>

lemma strip_nan: "strip (py ''nan'') = py ''nan''"
  by (simp add: strip_def py_def isspace_def)

lemma align_row_eq: "align_row W r = (if skip_row W r then None else Some (emit W r))"
  by (auto simp: align_row_def skip_row_def emit_def blank_def unset_sentinel_def zero_passages_def
      decoded_def isna_def str_def Let_def list_ex_iff list_all_iff strip_nan split: option.splits)

lemma align_loop_eq:
  "align_loop W table (acc, n) =
     (acc @ map (emit W) (filter (\<lambda>r. \<not> skip_row W r) table), n + length (filter (skip_row W) table))"
  by (induction table arbitrary: acc n) (simp_all add: align_row_eq)

lemmas eval_defs =
  skip_row_def skip_as_stated_def blank_def unset_sentinel_def zero_passages_def decoded_def isna_def
  str_def strip_def py_def isspace_def extract_contexts_from_contexts_column_def re_findall_def
  re_sub_def chunk_pattern_def isword_def whitespace_run_def title_marker_def group2_def split_nn_def
  cjk_def emit_def mk_row_def

text \<open>
  C5 (amended). For every table, the alignment skips a row iff its question is blank, or its
  answer is blank or the unset sentinel \<^verbatim>\<open>'nan'\<close>, or its context is blank or the unset
  sentinel or decodes to zero non-blank passages. The rows kept are emitted in input order,
  each with ground truth equal to its answer, and the number of skipped rows is counted
  apart from the rows kept: together they are all rows.
\<close>

theorem align_skips_exactly:
  "align_data_for_evaluation W table =
     (map (emit W) (filter (\<lambda>r. \<not> skip_row W r) table), length (filter (skip_row W) table)) \<and>
   map a_ground_truth (fst (align_data_for_evaluation W table)) =
     map a_answer (fst (align_data_for_evaluation W table)) \<and>
   length (fst (align_data_for_evaluation W table)) + snd (align_data_for_evaluation W table) =
     length table"
proof -
  have eq: "align_data_for_evaluation W table =
      (map (emit W) (filter (\<lambda>r. \<not> skip_row W r) table), length (filter (skip_row W) table))"
    by (simp add: align_data_for_evaluation_def align_loop_eq)
  have len: "length (filter (\<lambda>r. \<not> skip_row W r) table) + length (filter (skip_row W) table) = length table"
    using sum_length_filter_compl [of "skip_row W" table] by simp
  show ?thesis
    unfolding eq using len by (simp add: emit_def)
qed

text \<open>
  The scenario of C5: three rows, the first without an answer, the second without a
  context, the third complete. One row is kept and two are skipped.
\<close>

theorem align_skips_exactly_witness:
  "align_data_for_evaluation cjk
     [mk_row (Some (py ''q1'')) None None (Some (py ''[a.txt]:\<newline>first passage'')),
      mk_row (Some (py ''q2'')) (Some (py ''a2'')) None None,
      mk_row (Some (py ''q3'')) (Some (py ''a3'')) None (Some (py ''[b.txt]:\<newline>second passage''))] =
   ([\<lparr>a_question = py ''q3'', a_answer = py ''a3'', a_contexts = [py ''second passage''],
      a_ground_truth = py ''a3''\<rparr>], 2)"
  using align_skips_exactly [of cjk
     "[mk_row (Some (py ''q1'')) None None (Some (py ''[a.txt]:\<newline>first passage'')),
       mk_row (Some (py ''q2'')) (Some (py ''a2'')) None None,
       mk_row (Some (py ''q3'')) (Some (py ''a3'')) None (Some (py ''[b.txt]:\<newline>second passage''))]"]
  by (simp add: eval_defs)

text \<open>
  C5 as stated fails on a row whose context is the text \<^verbatim>\<open>nan\<close>: that context is not
  blank and decodes to one non-blank passage (the placeholder), so the stated condition
  does not skip the row, yet the code skips it.
\<close>

theorem align_context_sentinel_counterexample:
  "\<not> skip_as_stated cjk (mk_row (Some (py ''q'')) (Some (py ''a'')) None (Some (py ''nan''))) \<and>
   align_data_for_evaluation cjk [mk_row (Some (py ''q'')) (Some (py ''a'')) None (Some (py ''nan''))] = ([], 1)"
  by (simp add: eval_defs align_data_for_evaluation_def align_row_def reference_unclear_def)

section \<open>Passage extraction: results\<close>

lemma extract_not_empty: "extract_contexts_from_contexts_column W t \<noteq> []"
  by (simp add: extract_contexts_from_contexts_column_def Let_def split: option.splits)

text \<open>
  C10. The claim says that the extraction always returns a passage that is not blank. On a
  context that is a bare title marker of more than ten characters, the fallback branch
  keeps the chunk (it is long enough), then removes the marker and appends what is left:
  the empty string. The extraction returns one empty passage, and the alignment skips the
  row through the branch for "no non-blank passage".
\<close>

theorem extract_bare_title_marker:
  "extract_contexts_from_contexts_column cjk (Some (py ''[reference notes]:'')) = [[]] \<and>
   align_data_for_evaluation cjk
     [mk_row (Some (py ''q'')) (Some (py ''a'')) None (Some (py ''[reference notes]:''))] = ([], 1)"
  by (simp add: eval_defs align_data_for_evaluation_def align_row_def)

section \<open>Orchestrator: auxiliary facts\<close>

lemma merged_row_cases:
  "merged_row saved fresh =
     (if blank (ai_answer saved)
      then (if blank (contexts saved) then fresh else fresh\<lparr>contexts := contexts saved\<rparr>)
      else (if blank (contexts saved)
            then fresh\<lparr>ai_answer := ai_answer saved, reference := reference saved\<rparr>
            else fresh\<lparr>ai_answer := ai_answer saved, reference := reference saved,
                       contexts := contexts saved\<rparr>))"
  by (cases fresh) (simp add: merged_row_def)

lemma merge_step_eq:
  "merge_step k saved (d, ap, cp) =
     ((if k < length d then d[k := merged_row saved (d ! k)] else d),
      (if k < length d \<and> \<not> blank (ai_answer saved) then finsert k ap else ap),
      (if k < length d \<and> \<not> blank (contexts saved) then finsert k cp else cp))"
  by (simp add: merge_step_def merged_row_cases blank_def Let_def)

lemma merge_loop_length: "length (fst (merge_loop k saved (d, ap, cp))) = length d"
  by (induction saved arbitrary: k d ap cp) (simp_all add: merge_step_eq)

lemma merge_loop_nth:
  "i < length d \<Longrightarrow>
   fst (merge_loop k saved (d, ap, cp)) ! i =
     (if k \<le> i \<and> i - k < length saved then merged_row (saved ! (i - k)) (d ! i) else d ! i)"
proof (induction saved arbitrary: k d ap cp)
  case Nil
  then show ?case by simp
next
  case (Cons s saved)
  show ?case
  proof (cases "i = k")
    case True
    then show ?thesis using Cons by (simp add: merge_step_eq)
  next
    case False
    then show ?thesis using Cons
      by (auto simp: merge_step_eq nth_Cons')
  qed
qed

lemma merge_loop_answer_progress:
  "i |\<in>| fst (snd (merge_loop k saved (d, ap, cp))) \<longleftrightarrow>
     i |\<in>| ap \<or> (k \<le> i \<and> i - k < length saved \<and> i < length d \<and> \<not> blank (ai_answer (saved ! (i - k))))"
proof (induction saved arbitrary: k d ap cp)
  case Nil
  then show ?case by simp
next
  case (Cons s saved)
  show ?case
    by (auto simp: merge_step_eq Cons nth_Cons' split: if_splits)
qed

lemma merge_loop_context_progress:
  "i |\<in>| snd (snd (merge_loop k saved (d, ap, cp))) \<longleftrightarrow>
     i |\<in>| cp \<or> (k \<le> i \<and> i - k < length saved \<and> i < length d \<and> \<not> blank (contexts (saved ! (i - k))))"
proof (induction saved arbitrary: k d ap cp)
  case Nil
  then show ?case by simp
next
  case (Cons s saved)
  show ?case
    by (auto simp: merge_step_eq Cons nth_Cons' split: if_splits)
qed

lemma upt_0_Suc_shift: "[0..<Suc n] = 0 # map Suc [0..<n]"
  by (simp add: upt_conv_Cons map_Suc_upt del: upt_Suc)

lemma build_tasks_eq:
  "build_tasks ap cp k rows (ats, cts) =
     (ats @ map (\<lambda>j. (k + j, strip (str (question (rows ! j)))))
            (filter (\<lambda>j. \<not> blank (question (rows ! j)) \<and> k + j |\<notin>| ap \<and> blank (ai_answer (rows ! j)))
               [0..<length rows]),
      cts @ map (\<lambda>j. (k + j, strip (str (question (rows ! j)))))
            (filter (\<lambda>j. \<not> blank (question (rows ! j)) \<and> k + j |\<notin>| cp \<and> blank (contexts (rows ! j)))
               [0..<length rows]))"
proof (induction rows arbitrary: k ats cts)
  case Nil
  then show ?case by simp
next
  case (Cons r rows)
  show ?case
    by (simp add: Cons upt_0_Suc_shift filter_map o_def blank_def Let_def del: upt_Suc)
qed

lemma build_tasks_0:
  "build_tasks ap cp 0 table ([], []) =
     (map (task_of table) (filter (needs_fetch ap ai_answer table) [0..<length table]),
      map (task_of table) (filter (needs_fetch cp contexts table) [0..<length table]))"
  by (simp add: build_tasks_eq task_of_def needs_fetch_def cong: filter_cong)

lemma load_processing_state_eq:
  "load_processing_state store h =
     Inr (case store h of
            Some (Pickled state) \<Rightarrow> Some (Checkpoint state)
          | Some PickledOther \<Rightarrow> Some NoCheckpoint
          | _ \<Rightarrow> None)"
  by (simp add: load_processing_state_def load_body_def split: option.splits file_content.splits)

lemma save_run_fields [simp]:
  "df (save_run e h s) = df s"
  "answer_progress (save_run e h s) = answer_progress s"
  "context_progress (save_run e h s) = context_progress s"
  "successful_answers (save_run e h s) = successful_answers s"
  "successful_contexts (save_run e h s) = successful_contexts s"
  "saves (save_run e h s) = saves s + 1"
  by (simp_all add: save_run_def)

lemma apply_answer_eq:
  "apply_answer i (answer_future e t) s =
     (if answer_ok e t
      then s\<lparr>df := (df s)[i := (df s ! i)\<lparr>ai_answer := Some (ar_ai_answer (case answer_future e t of Returns r \<Rightarrow> r)),
                                         reference := Some (ar_reference (case answer_future e t of Returns r \<Rightarrow> r))\<rparr>],
             answer_progress := finsert i (answer_progress s),
             successful_answers := successful_answers s + 1\<rparr>
      else s)"
  by (simp add: apply_answer_def answer_ok_def split: future.splits)

lemma drain_answers_progress:
  "answer_progress (drain_answers e h n ts s) =
     answer_progress s |\<union>| fset_of_list (map fst (filter (answer_ok e) ts))"
  by (induction ts arbitrary: n s) (auto simp: apply_answer_eq Let_def)

lemma drain_answers_context_progress:
  "context_progress (drain_answers e h n ts s) = context_progress s"
  by (induction ts arbitrary: n s) (auto simp: apply_answer_eq Let_def)

lemma drain_answers_length:
  "length (df (drain_answers e h n ts s)) = length (df s)"
  by (induction ts arbitrary: n s) (auto simp: apply_answer_eq Let_def)

lemma drain_answers_untouched:
  "i \<notin> fst ` set (filter (answer_ok e) ts) \<Longrightarrow> df (drain_answers e h n ts s) ! i = df s ! i"
  by (induction ts arbitrary: n s) (auto simp: apply_answer_eq Let_def)

lemma nth_update_field:
  assumes "\<And>r. f (g r) = f r"
  shows "f ((xs[j := g (xs ! j)]) ! i) = f (xs ! i)"
proof (cases "j < length xs")
  case True
  then show ?thesis using assms by (cases "i = j") simp_all
next
  case False
  then show ?thesis by (simp add: list_update_beyond)
qed

lemma drain_answers_contexts:
  "contexts (df (drain_answers e h n ts s) ! i) = contexts (df s ! i)"
proof (induction ts arbitrary: n s)
  case Nil
  then show ?case by simp
next
  case (Cons t ts)
  have "contexts (((df s)[j := (df s ! j)\<lparr>ai_answer := a, reference := b\<rparr>]) ! i) = contexts (df s ! i)" for j a b
    by (rule nth_update_field) simp
  then show ?case
    by (auto simp: apply_answer_eq Let_def Cons)
qed

lemma drain_answers_delivered:
  "t \<in> set ts \<Longrightarrow> answer_ok e t \<Longrightarrow> distinct (map fst ts) \<Longrightarrow> fst t < length (df s) \<Longrightarrow>
   answer_future e t = Returns r \<Longrightarrow>
   ai_answer (df (drain_answers e h n ts s) ! fst t) = Some (ar_ai_answer r) \<and>
   reference (df (drain_answers e h n ts s) ! fst t) = Some (ar_reference r)"
proof (induction ts arbitrary: n s)
  case Nil
  then show ?case by simp
next
  case (Cons u ts)
  show ?case
  proof (cases "t = u")
    case True
    have "fst t \<notin> fst ` set (filter (answer_ok e) ts)"
      using Cons.prems(3) True by (auto simp: image_iff)
    then show ?thesis
      using Cons.prems True
      by (simp add: drain_answers_untouched apply_answer_def answer_ok_def Let_def)
  next
    case False
    then have "t \<in> set ts" using Cons.prems(1) by simp
    moreover have "distinct (map fst ts)" using Cons.prems(3) by simp
    ultimately show ?thesis
      using Cons.IH Cons.prems
      by (simp add: Let_def apply_answer_eq)
  qed
qed

lemma apply_context_eq:
  "apply_context i (context_future e t) s =
     (if context_ok e t
      then s\<lparr>df := (df s)[i := (df s ! i)\<lparr>contexts := Some (fst (case context_future e t of Returns r \<Rightarrow> r))\<rparr>],
             context_progress := finsert i (context_progress s),
             successful_contexts := successful_contexts s + 1\<rparr>
      else s)"
  by (simp add: apply_context_def context_ok_def split: future.splits prod.splits)

lemma drain_contexts_progress:
  "context_progress (drain_contexts e h n ts s) =
     context_progress s |\<union>| fset_of_list (map fst (filter (context_ok e) ts))"
  by (induction ts arbitrary: n s) (auto simp: apply_context_eq Let_def)

lemma drain_contexts_answer_progress:
  "answer_progress (drain_contexts e h n ts s) = answer_progress s"
  by (induction ts arbitrary: n s) (auto simp: apply_context_eq Let_def)

lemma drain_contexts_length:
  "length (df (drain_contexts e h n ts s)) = length (df s)"
  by (induction ts arbitrary: n s) (auto simp: apply_context_eq Let_def)

lemma drain_contexts_untouched:
  "i \<notin> fst ` set (filter (context_ok e) ts) \<Longrightarrow> df (drain_contexts e h n ts s) ! i = df s ! i"
  by (induction ts arbitrary: n s) (auto simp: apply_context_eq Let_def)

lemma drain_contexts_answers:
  "ai_answer (df (drain_contexts e h n ts s) ! i) = ai_answer (df s ! i) \<and>
   reference (df (drain_contexts e h n ts s) ! i) = reference (df s ! i)"
proof (induction ts arbitrary: n s)
  case Nil
  then show ?case by simp
next
  case (Cons t ts)
  have a: "ai_answer (((df s)[j := (df s ! j)\<lparr>contexts := c\<rparr>]) ! i) = ai_answer (df s ! i)" for j c
    by (rule nth_update_field) simp
  have b: "reference (((df s)[j := (df s ! j)\<lparr>contexts := c\<rparr>]) ! i) = reference (df s ! i)" for j c
    by (rule nth_update_field) simp
  show ?case
    by (auto simp: apply_context_eq Let_def Cons a b)
qed

lemma drain_contexts_delivered:
  "t \<in> set ts \<Longrightarrow> context_ok e t \<Longrightarrow> distinct (map fst ts) \<Longrightarrow> fst t < length (df s) \<Longrightarrow>
   context_future e t = Returns r \<Longrightarrow>
   contexts (df (drain_contexts e h n ts s) ! fst t) = Some (fst r)"
proof (induction ts arbitrary: n s)
  case Nil
  then show ?case by simp
next
  case (Cons u ts)
  show ?case
  proof (cases "t = u")
    case True
    have "fst t \<notin> fst ` set (filter (context_ok e) ts)"
      using Cons.prems(3) True by (auto simp: image_iff)
    then show ?thesis
      using Cons.prems True
      by (cases r) (simp add: drain_contexts_untouched apply_context_def context_ok_def Let_def)
  next
    case False
    then have "t \<in> set ts" using Cons.prems(1) by simp
    moreover have "distinct (map fst ts)" using Cons.prems(3) by simp
    ultimately show ?thesis
      using Cons.IH Cons.prems
      by (simp add: Let_def apply_context_eq)
  qed
qed

text \<open>The run, unfolded: the checkpoint found, the merge, the tasks, the two pools, the final save.\<close>

lemma process_method2_file_eq:
  "process_method2_file W e store0 h uploaded =
    (if store0 h = Some PickledOther then Inl LookupError else
     Inr (let previous = (case store0 h of Some (Pickled state) \<Rightarrow> Some state | _ \<Rightarrow> None);
              r = restore previous uploaded;
              ts = build_tasks (fst (snd r)) (snd (snd r)) 0 (fst r) ([], []);
              s0 = \<lparr>fs = store0, df = fst r, answer_progress = fst (snd r), context_progress = snd (snd r),
                    successful_answers = 0, successful_contexts = 0, completed_tasks = 0, saves = 0\<rparr>;
              s2 = drain_contexts e h 0 (context_order e (snd ts))
                     (drain_answers e h 0 (answer_order e (fst ts)) s0);
              ragas = fst (align_data_for_evaluation W (df s2))
          in \<lparr>final = save_run e h s2, answer_tasks = fst ts, context_tasks = snd ts,
              ragas_data = (if ragas = [] then None else Some ragas)\<rparr>))"
  by (simp add: process_method2_file_def load_processing_state_eq state_fields_def Let_def
      split: prod.splits option.splits file_content.splits)

lemma fset_list_of_set [simp]: "fset_of_list (list_of_set s) = s"
  by (simp add: list_of_set_def)

section \<open>Orchestrator: results\<close>

text \<open>
  C1 (amended). On loading a checkpoint, for every index of the fresh table: the merged
  answer is the checkpoint's answer whenever the checkpoint has a row at that index whose
  answer is not blank, and the fresh answer otherwise; the merged reference note follows
  the answer (it is the checkpoint's note exactly when the checkpoint's answer is not
  blank); the merged context is the checkpoint's context whenever that is not blank, and
  the fresh context otherwise. The question is never changed. So a blank fresh answer or
  context is filled from a checkpoint value that is not blank, a blank fresh reference
  note is filled only together with an answer, and where both are populated the
  checkpoint's value is the one kept.
\<close>

theorem merge_takes_checkpoint_values:
  "i < length uploaded \<Longrightarrow>
   question (fst (restore (Some state) uploaded) ! i) = question (uploaded ! i) \<and>
   ai_answer (fst (restore (Some state) uploaded) ! i) =
     (if i < length (sd_df state) \<and> \<not> blank (ai_answer (sd_df state ! i))
      then ai_answer (sd_df state ! i) else ai_answer (uploaded ! i)) \<and>
   reference (fst (restore (Some state) uploaded) ! i) =
     (if i < length (sd_df state) \<and> \<not> blank (ai_answer (sd_df state ! i))
      then reference (sd_df state ! i) else reference (uploaded ! i)) \<and>
   contexts (fst (restore (Some state) uploaded) ! i) =
     (if i < length (sd_df state) \<and> \<not> blank (contexts (sd_df state ! i))
      then contexts (sd_df state ! i) else contexts (uploaded ! i))"
  by (simp add: restore_def merge_loop_nth merged_row_def)

text \<open>
  A gap is filled, and a populated fresh context survives a checkpoint without context.
\<close>

theorem merge_takes_checkpoint_values_witness:
  "ai_answer (fst (restore
       (Some \<lparr>sd_file_hash = py ''h'',
              sd_df = [mk_row (Some (py ''q'')) (Some (py ''saved answer'')) (Some (py ''saved note'')) None],
              sd_answer_progress = [0], sd_context_progress = [], sd_timestamp = py ''t''\<rparr>)
       [mk_row (Some (py ''q'')) None None (Some (py ''fresh context''))]) ! 0) = Some (py ''saved answer'') \<and>
   contexts (fst (restore
       (Some \<lparr>sd_file_hash = py ''h'',
              sd_df = [mk_row (Some (py ''q'')) (Some (py ''saved answer'')) (Some (py ''saved note'')) None],
              sd_answer_progress = [0], sd_context_progress = [], sd_timestamp = py ''t''\<rparr>)
       [mk_row (Some (py ''q'')) None None (Some (py ''fresh context''))]) ! 0) = Some (py ''fresh context'')"
  using merge_takes_checkpoint_values [of 0
      "[mk_row (Some (py ''q'')) None None (Some (py ''fresh context''))]"
      "\<lparr>sd_file_hash = py ''h'',
        sd_df = [mk_row (Some (py ''q'')) (Some (py ''saved answer'')) (Some (py ''saved note'')) None],
        sd_answer_progress = [0], sd_context_progress = [], sd_timestamp = py ''t''\<rparr>"]
  by (simp add: mk_row_def blank_def isna_def str_def strip_def py_def isspace_def)

text \<open>
  C1 as stated fails. Row 0: the fresh table has a reference note and no answer, the
  checkpoint holds the answer fetched since, with its own note; the merge replaces the
  fresh note. Row 1: fresh and checkpoint are both populated and differ; the merge keeps
  the checkpoint's values, also the missing note.
\<close>

theorem merge_overwrites_fresh_counterexample:
  "\<not> blank (Some (py ''fresh note'')) \<and> \<not> blank (Some (py ''fresh answer'')) \<and>
   \<not> blank (Some (py ''fresh context'')) \<and>
   fst (restore
       (Some \<lparr>sd_file_hash = py ''h'',
              sd_df = [mk_row (Some (py ''q0'')) (Some (py ''fetched answer'')) (Some (py ''fetched note'')) None,
                       mk_row (Some (py ''q1'')) (Some (py ''saved answer'')) None (Some (py ''saved context''))],
              sd_answer_progress = [0, 1], sd_context_progress = [1], sd_timestamp = py ''t''\<rparr>)
       [mk_row (Some (py ''q0'')) None (Some (py ''fresh note'')) None,
        mk_row (Some (py ''q1'')) (Some (py ''fresh answer'')) (Some (py ''fresh note''))
          (Some (py ''fresh context''))]) =
     [mk_row (Some (py ''q0'')) (Some (py ''fetched answer'')) (Some (py ''fetched note'')) None,
      mk_row (Some (py ''q1'')) (Some (py ''saved answer'')) None (Some (py ''saved context''))]"
  by (simp add: restore_def merge_step_def mk_row_def blank_def isna_def str_def strip_def py_def
      isspace_def Let_def)
lemma restore_keeps_progress:
  "i \<in> set (sd_answer_progress state) \<Longrightarrow> i |\<in>| fst (snd (restore (Some state) uploaded))"
  "i \<in> set (sd_context_progress state) \<Longrightarrow> i |\<in>| snd (snd (restore (Some state) uploaded))"
  by (simp_all add: restore_def merge_loop_answer_progress merge_loop_context_progress fset_of_list_elem)

lemma final_store:
  assumes "process_method2_file W e store0 h uploaded = Inr out"
    and "save_fault e (saves (final out) - 1) = NoFault"
  shows "\<exists>state. fs (final out) h = Some (Pickled state) \<and>
           sd_answer_progress state = list_of_set (answer_progress (final out)) \<and>
           sd_context_progress state = list_of_set (context_progress (final out)) \<and>
           sd_df state = df (final out)"
  using assms
  by (auto simp: process_method2_file_eq Let_def save_run_def save_processing_state_def
      split: if_splits)

lemma tasks_of_run:
  assumes "process_method2_file W e store0 h uploaded = Inr out"
    and "load_processing_state store0 h = Inr found"
    and "state_fields found = Inr previous"
  shows "(answer_tasks out, context_tasks out) =
           build_tasks (fst (snd (restore previous uploaded))) (snd (snd (restore previous uploaded))) 0
             (fst (restore previous uploaded)) ([], [])"
  using assms
  by (auto simp: process_method2_file_eq load_processing_state_eq state_fields_def Let_def
      split: if_splits option.splits file_content.splits)

text \<open>
  C2. The task lists are exactly those of the contract: a fetch task is built for a row
  and a kind iff the question is not blank, the progress set of that kind does not hold
  the index, and the field of that kind (AI answer, context) is blank; the tasks come in
  row order, each with the stripped question. A run builds its lists this way from the
  table and the progress sets restored from the checkpoint. Hence a restart on the same
  upload, with the checkpoint of a completed run in place, builds no task for a pair that
  the run had marked done.
\<close>

theorem tasks_built_exactly:
  "build_tasks ap cp 0 table ([], []) =
     (map (task_of table) (filter (needs_fetch ap ai_answer table) [0..<length table]),
      map (task_of table) (filter (needs_fetch cp contexts table) [0..<length table])) \<and>
   (load_processing_state store0 h = Inr found \<and> state_fields found = Inr previous \<and>
    process_method2_file W e1 store0 h uploaded = Inr run1 \<longrightarrow>
      (answer_tasks run1, context_tasks run1) =
        build_tasks (fst (snd (restore previous uploaded))) (snd (snd (restore previous uploaded))) 0
          (fst (restore previous uploaded)) ([], [])) \<and>
   (process_method2_file W e1 store0 h uploaded = Inr run1 \<and>
    save_fault e1 (saves (final run1) - 1) = NoFault \<and>
    process_method2_file W e2 (fs (final run1)) h uploaded = Inr run2 \<longrightarrow>
      (\<forall>t \<in> set (answer_tasks run2). fst t |\<notin>| answer_progress (final run1)) \<and>
      (\<forall>t \<in> set (context_tasks run2). fst t |\<notin>| context_progress (final run1)))"
proof (intro conjI impI)
  show "build_tasks ap cp 0 table ([], []) =
     (map (task_of table) (filter (needs_fetch ap ai_answer table) [0..<length table]),
      map (task_of table) (filter (needs_fetch cp contexts table) [0..<length table]))"
    by (rule build_tasks_0)
next
  assume "load_processing_state store0 h = Inr found \<and> state_fields found = Inr previous \<and>
    process_method2_file W e1 store0 h uploaded = Inr run1"
  then show "(answer_tasks run1, context_tasks run1) =
        build_tasks (fst (snd (restore previous uploaded))) (snd (snd (restore previous uploaded))) 0
          (fst (restore previous uploaded)) ([], [])"
    using tasks_of_run by blast
next
  assume a: "process_method2_file W e1 store0 h uploaded = Inr run1 \<and>
    save_fault e1 (saves (final run1) - 1) = NoFault \<and>
    process_method2_file W e2 (fs (final run1)) h uploaded = Inr run2"
  then obtain state where st: "fs (final run1) h = Some (Pickled state)"
      "sd_answer_progress state = list_of_set (answer_progress (final run1))"
      "sd_context_progress state = list_of_set (context_progress (final run1))"
    using final_store by blast
  have ld: "load_processing_state (fs (final run1)) h = Inr (Some (Checkpoint state))"
    by (simp add: load_processing_state_eq st(1))
  have sf: "state_fields (Some (Checkpoint state)) = Inr (Some state)"
    by (simp add: state_fields_def)
  have ts: "(answer_tasks run2, context_tasks run2) =
      build_tasks (fst (snd (restore (Some state) uploaded))) (snd (snd (restore (Some state) uploaded))) 0
        (fst (restore (Some state) uploaded)) ([], [])"
    using tasks_of_run [OF _ ld sf] a by blast
  have ap: "i |\<in>| answer_progress (final run1) \<Longrightarrow> i |\<in>| fst (snd (restore (Some state) uploaded))" for i
    using restore_keeps_progress(1) [of i state uploaded] st(2)
    by (simp add: list_of_set_def)
  have cp: "i |\<in>| context_progress (final run1) \<Longrightarrow> i |\<in>| snd (snd (restore (Some state) uploaded))" for i
    using restore_keeps_progress(2) [of i state uploaded] st(3)
    by (simp add: list_of_set_def)
  show "\<forall>t \<in> set (answer_tasks run2). fst t |\<notin>| answer_progress (final run1)"
    using ts ap by (auto simp: build_tasks_0 task_of_def needs_fetch_def)
  show "\<forall>t \<in> set (context_tasks run2). fst t |\<notin>| context_progress (final run1)"
    using ts cp by (auto simp: build_tasks_0 task_of_def needs_fetch_def)
qed

lemma run_fields:
  assumes "process_method2_file W e store0 h uploaded = Inr out"
  shows "answer_tasks out =
           fst (build_tasks (fst (snd (restore (case store0 h of Some (Pickled state) \<Rightarrow> Some state | _ \<Rightarrow> None) uploaded)))
                  (snd (snd (restore (case store0 h of Some (Pickled state) \<Rightarrow> Some state | _ \<Rightarrow> None) uploaded))) 0
                  (fst (restore (case store0 h of Some (Pickled state) \<Rightarrow> Some state | _ \<Rightarrow> None) uploaded)) ([], []))"
    and "context_tasks out =
           snd (build_tasks (fst (snd (restore (case store0 h of Some (Pickled state) \<Rightarrow> Some state | _ \<Rightarrow> None) uploaded)))
                  (snd (snd (restore (case store0 h of Some (Pickled state) \<Rightarrow> Some state | _ \<Rightarrow> None) uploaded))) 0
                  (fst (restore (case store0 h of Some (Pickled state) \<Rightarrow> Some state | _ \<Rightarrow> None) uploaded)) ([], []))"
    and "final out =
           save_run e h
             (drain_contexts e h 0 (context_order e (context_tasks out))
                (drain_answers e h 0 (answer_order e (answer_tasks out))
                   \<lparr>fs = store0,
                    df = fst (restore (case store0 h of Some (Pickled state) \<Rightarrow> Some state | _ \<Rightarrow> None) uploaded),
                    answer_progress = fst (snd (restore (case store0 h of Some (Pickled state) \<Rightarrow> Some state | _ \<Rightarrow> None) uploaded)),
                    context_progress = snd (snd (restore (case store0 h of Some (Pickled state) \<Rightarrow> Some state | _ \<Rightarrow> None) uploaded)),
                    successful_answers = 0, successful_contexts = 0, completed_tasks = 0, saves = 0\<rparr>))"
  using assms by (auto simp: process_method2_file_eq Let_def split: if_splits)

lemmas scenario_defs =
  three_questions_def second_answer_fails_def restore_def merge_step_def mk_row_def Let_def
  blank_def isna_def str_def strip_def py_def isspace_def apply_answer_def apply_context_def
  save_run_def save_processing_state_def

lemma built_tasks_facts:
  assumes "(ats, cts) = build_tasks ap cp 0 table ([], [])"
  shows "distinct (map fst ats)" and "distinct (map fst cts)"
    and "t \<in> set ats \<Longrightarrow> fst t < length table \<and> fst t |\<notin>| ap \<and> blank (ai_answer (table ! fst t))"
    and "t \<in> set cts \<Longrightarrow> fst t < length table \<and> fst t |\<notin>| cp \<and> blank (contexts (table ! fst t))"
proof -
  have a: "ats = map (task_of table) (filter (needs_fetch ap ai_answer table) [0..<length table])"
    and c: "cts = map (task_of table) (filter (needs_fetch cp contexts table) [0..<length table])"
    using assms by (simp_all add: build_tasks_0)
  have m: "map fst (map (task_of table) xs) = xs" for xs
    by (induction xs) (simp_all add: task_of_def)
  show "distinct (map fst ats)" unfolding a m by simp
  show "distinct (map fst cts)" unfolding c m by simp
  show "t \<in> set ats \<Longrightarrow> fst t < length table \<and> fst t |\<notin>| ap \<and> blank (ai_answer (table ! fst t))"
    by (auto simp: a task_of_def needs_fetch_def)
  show "t \<in> set cts \<Longrightarrow> fst t < length table \<and> fst t |\<notin>| cp \<and> blank (contexts (table ! fst t))"
    by (auto simp: c task_of_def needs_fetch_def)
qed

lemma permuted_tasks:
  assumes "mset ord = mset ts" and "distinct (map fst ts)"
  shows "set ord = set ts" and "distinct (map fst ord)"
    and "u \<in> set ord \<Longrightarrow> t \<in> set ts \<Longrightarrow> fst u = fst t \<Longrightarrow> u = t"
proof -
  show s: "set ord = set ts" using assms(1) by (rule mset_eq_setD)
  have "mset (map fst ord) = mset (map fst ts)" using assms(1) by simp
  then show "distinct (map fst ord)" using assms(2) by (metis mset_eq_imp_distinct_iff)
  have "inj_on fst (set ts)" using assms(2) by (simp add: distinct_map)
  then show "u \<in> set ord \<Longrightarrow> t \<in> set ts \<Longrightarrow> fst u = fst t \<Longrightarrow> u = t"
    using s by (auto dest: inj_onD)
qed

lemma in_delivered:
  "i |\<in>| fset_of_list (map fst (filter P ts)) \<longleftrightarrow> i \<in> fst ` set (filter P ts)"
  unfolding fset_of_list_elem by simp

text \<open>
  C6. In a run whose pools hand over every submitted future once: an answer task whose
  request fails (the future raises, or returns without the success flag) leaves the
  answer and the reference of its row as they were, blank as when the task was built, and
  its index is not in the answer progress set at the end; an answer task whose request
  succeeds has its answer and reference written and its index marked done, whatever
  happens to the other tasks. The same holds for context tasks and the context progress
  set.
\<close>

theorem failed_fetch_not_recorded:
  assumes "load_processing_state store0 h = Inr found"
    and "state_fields found = Inr previous"
    and "process_method2_file W e store0 h uploaded = Inr out"
  shows
    "(mset (answer_order e (answer_tasks out)) = mset (answer_tasks out) \<and> t \<in> set (answer_tasks out) \<longrightarrow>
        (\<not> answer_ok e t \<longrightarrow>
           fst t |\<notin>| answer_progress (final out) \<and>
           blank (ai_answer (df (final out) ! fst t)) \<and>
           ai_answer (df (final out) ! fst t) = ai_answer (fst (restore previous uploaded) ! fst t) \<and>
           reference (df (final out) ! fst t) = reference (fst (restore previous uploaded) ! fst t)) \<and>
        (\<forall>r. answer_future e t = Returns r \<and> ar_success r \<longrightarrow>
           fst t |\<in>| answer_progress (final out) \<and>
           ai_answer (df (final out) ! fst t) = Some (ar_ai_answer r) \<and>
           reference (df (final out) ! fst t) = Some (ar_reference r))) \<and>
     (mset (context_order e (context_tasks out)) = mset (context_tasks out) \<and> t \<in> set (context_tasks out) \<longrightarrow>
        (\<not> context_ok e t \<longrightarrow>
           fst t |\<notin>| context_progress (final out) \<and>
           blank (contexts (df (final out) ! fst t)) \<and>
           contexts (df (final out) ! fst t) = contexts (fst (restore previous uploaded) ! fst t)) \<and>
        (\<forall>r. context_future e t = Returns r \<and> snd r \<longrightarrow>
           fst t |\<in>| context_progress (final out) \<and>
           contexts (df (final out) ! fst t) = Some (fst r)))"
proof -
  define table0 where "table0 = fst (restore previous uploaded)"
  define ap0 where "ap0 = fst (snd (restore previous uploaded))"
  define cp0 where "cp0 = snd (snd (restore previous uploaded))"
  define s0 where "s0 = \<lparr>fs = store0, df = table0, answer_progress = ap0, context_progress = cp0,
                          successful_answers = 0, successful_contexts = 0, completed_tasks = 0, saves = 0\<rparr>"
  define s1 where "s1 = drain_answers e h 0 (answer_order e (answer_tasks out)) s0"
  define s2 where "s2 = drain_contexts e h 0 (context_order e (context_tasks out)) s1"
  have prev: "previous = (case store0 h of Some (Pickled state) \<Rightarrow> Some state | _ \<Rightarrow> None)"
    using assms(1,2)
    by (auto simp: load_processing_state_eq state_fields_def split: option.splits file_content.splits)
  have fin: "final out = save_run e h s2"
    using run_fields(3) [OF assms(3)]
    by (simp add: s2_def s1_def s0_def table0_def ap0_def cp0_def prev)
  have built: "(answer_tasks out, context_tasks out) = build_tasks ap0 cp0 0 table0 ([], [])"
    using tasks_of_run [OF assms(3) assms(1) assms(2)] by (simp add: table0_def ap0_def cp0_def)
  note facts = built_tasks_facts [OF built]
  have len1: "length (df s1) = length table0"
    by (simp add: s1_def drain_answers_length s0_def)
  have answers: "ai_answer (df (final out) ! i) = ai_answer (df s1 ! i) \<and>
                 reference (df (final out) ! i) = reference (df s1 ! i)" for i
    by (simp add: fin s2_def drain_contexts_answers)
  have "answer_progress (final out) =
      ap0 |\<union>| fset_of_list (map fst (filter (answer_ok e) (answer_order e (answer_tasks out))))"
    unfolding fin s2_def s1_def
    by (simp only: save_run_fields drain_contexts_answer_progress drain_answers_progress)
       (simp add: s0_def)
  then have ap_final: "i |\<in>| answer_progress (final out) \<longleftrightarrow>
      i |\<in>| ap0 \<or> i \<in> fst ` set (filter (answer_ok e) (answer_order e (answer_tasks out)))" for i
    by (simp only: funion_iff in_delivered)
  have "context_progress (final out) =
      cp0 |\<union>| fset_of_list (map fst (filter (context_ok e) (context_order e (context_tasks out))))"
    unfolding fin s2_def s1_def
    by (simp only: save_run_fields drain_contexts_progress drain_answers_context_progress)
       (simp add: s0_def)
  then have cp_final: "i |\<in>| context_progress (final out) \<longleftrightarrow>
      i |\<in>| cp0 \<or> i \<in> fst ` set (filter (context_ok e) (context_order e (context_tasks out)))" for i
    by (simp only: funion_iff in_delivered)
  have ctx1: "contexts (df s1 ! i) = contexts (table0 ! i)" for i
    by (simp add: s1_def drain_answers_contexts s0_def)
  have part_a: "(\<not> answer_ok e t \<longrightarrow>
           fst t |\<notin>| answer_progress (final out) \<and>
           blank (ai_answer (df (final out) ! fst t)) \<and>
           ai_answer (df (final out) ! fst t) = ai_answer (table0 ! fst t) \<and>
           reference (df (final out) ! fst t) = reference (table0 ! fst t)) \<and>
        (\<forall>r. answer_future e t = Returns r \<and> ar_success r \<longrightarrow>
           fst t |\<in>| answer_progress (final out) \<and>
           ai_answer (df (final out) ! fst t) = Some (ar_ai_answer r) \<and>
           reference (df (final out) ! fst t) = Some (ar_reference r))"
    if perm: "mset (answer_order e (answer_tasks out)) = mset (answer_tasks out)"
      and t: "t \<in> set (answer_tasks out)"
  proof (intro conjI impI allI)
    note p = permuted_tasks [OF perm facts(1)]
    have tf: "fst t < length table0" "fst t |\<notin>| ap0" "blank (ai_answer (table0 ! fst t))"
      using facts(3) [OF t] by simp_all
    {
      assume nok: "\<not> answer_ok e t"
      have notin: "fst t \<notin> fst ` set (filter (answer_ok e) (answer_order e (answer_tasks out)))"
      proof
        assume "fst t \<in> fst ` set (filter (answer_ok e) (answer_order e (answer_tasks out)))"
        then obtain u where u: "u \<in> set (answer_order e (answer_tasks out))" "answer_ok e u" "fst u = fst t"
          by auto
        then have "u = t" using p(3) t by blast
        then show False using u(2) nok by simp
      qed
      have same: "df s1 ! fst t = table0 ! fst t"
        using drain_answers_untouched [OF notin] by (simp add: s1_def s0_def)
      show "fst t |\<notin>| answer_progress (final out)"
        using notin tf(2) by (simp only: ap_final) simp
      show "blank (ai_answer (df (final out) ! fst t))"
        using tf(3) by (simp add: answers same)
      show "ai_answer (df (final out) ! fst t) = ai_answer (table0 ! fst t)"
        by (simp add: answers same)
      show "reference (df (final out) ! fst t) = reference (table0 ! fst t)"
        by (simp add: answers same)
    }
    {
      fix r assume r: "answer_future e t = Returns r \<and> ar_success r"
      then have ok: "answer_ok e t" by (simp add: answer_ok_def)
      have tin: "t \<in> set (answer_order e (answer_tasks out))" using p(1) t by simp
      have d: "ai_answer (df s1 ! fst t) = Some (ar_ai_answer r) \<and>
               reference (df s1 ! fst t) = Some (ar_reference r)"
        unfolding s1_def
        by (rule drain_answers_delivered [OF tin ok p(2)]) (use tf(1) r in \<open>simp_all add: s0_def\<close>)
      show "fst t |\<in>| answer_progress (final out)"
        using tin ok by (simp only: ap_final) force
      show "ai_answer (df (final out) ! fst t) = Some (ar_ai_answer r)"
        using d by (simp add: answers)
      show "reference (df (final out) ! fst t) = Some (ar_reference r)"
        using d by (simp add: answers)
    }
  qed
  have part_c: "(\<not> context_ok e t \<longrightarrow>
           fst t |\<notin>| context_progress (final out) \<and>
           blank (contexts (df (final out) ! fst t)) \<and>
           contexts (df (final out) ! fst t) = contexts (table0 ! fst t)) \<and>
        (\<forall>r. context_future e t = Returns r \<and> snd r \<longrightarrow>
           fst t |\<in>| context_progress (final out) \<and>
           contexts (df (final out) ! fst t) = Some (fst r))"
    if perm: "mset (context_order e (context_tasks out)) = mset (context_tasks out)"
      and t: "t \<in> set (context_tasks out)"
  proof (intro conjI impI allI)
    note p = permuted_tasks [OF perm facts(2)]
    have tf: "fst t < length table0" "fst t |\<notin>| cp0" "blank (contexts (table0 ! fst t))"
      using facts(4) [OF t] by simp_all
    {
      assume nok: "\<not> context_ok e t"
      have notin: "fst t \<notin> fst ` set (filter (context_ok e) (context_order e (context_tasks out)))"
      proof
        assume "fst t \<in> fst ` set (filter (context_ok e) (context_order e (context_tasks out)))"
        then obtain u where u: "u \<in> set (context_order e (context_tasks out))" "context_ok e u" "fst u = fst t"
          by auto
        then have "u = t" using p(3) t by blast
        then show False using u(2) nok by simp
      qed
      have same: "df (final out) ! fst t = df s1 ! fst t"
        using drain_contexts_untouched [OF notin] by (simp add: fin s2_def)
      show "fst t |\<notin>| context_progress (final out)"
        using notin tf(2) by (simp only: cp_final) simp
      show "blank (contexts (df (final out) ! fst t))"
        using tf(3) by (simp add: same ctx1)
      show "contexts (df (final out) ! fst t) = contexts (table0 ! fst t)"
        by (simp add: same ctx1)
    }
    {
      fix r assume r: "context_future e t = Returns r \<and> snd r"
      then have ok: "context_ok e t" by (simp add: context_ok_def)
      have tin: "t \<in> set (context_order e (context_tasks out))" using p(1) t by simp
      have d: "contexts (df s2 ! fst t) = Some (fst r)"
        unfolding s2_def
        by (rule drain_contexts_delivered [OF tin ok p(2)]) (use tf(1) r len1 in simp_all)
      show "fst t |\<in>| context_progress (final out)"
        using tin ok by (simp only: cp_final) force
      show "contexts (df (final out) ! fst t) = Some (fst r)"
        using d by (simp add: fin)
    }
  qed
  show ?thesis
    using part_a part_c unfolding table0_def by blast
qed


section \<open>The scenario of a failed answer request\<close>

lemma scenario_first_run:
  assumes "process_method2_file cjk second_answer_fails Map.empty (py ''h'') three_questions = Inr run1"
  shows "answer_tasks run1 = [(0, py ''q1''), (1, py ''q2''), (2, py ''q3'')]"
    and "context_tasks run1 = [(0, py ''q1''), (1, py ''q2''), (2, py ''q3'')]"
    and "final run1 =
      \<lparr>fs = [py ''h'' \<mapsto> Pickled
               \<lparr>sd_file_hash = py ''h'',
                sd_df = [mk_row (Some (py ''q1'')) (Some (py ''an answer'')) (Some (py ''- a.doc''))
                           (Some (py ''[a.txt]:\<newline>a passage'')),
                         mk_row (Some (py ''q2'')) None None (Some (py ''[a.txt]:\<newline>a passage'')),
                         mk_row (Some (py ''q3'')) (Some (py ''an answer'')) (Some (py ''- a.doc''))
                           (Some (py ''[a.txt]:\<newline>a passage''))],
                sd_answer_progress = list_of_set {|0, 2|},
                sd_context_progress = list_of_set {|0, 1, 2|},
                sd_timestamp = py ''2024-05-01T10:00:00''\<rparr>],
       df = [mk_row (Some (py ''q1'')) (Some (py ''an answer'')) (Some (py ''- a.doc''))
               (Some (py ''[a.txt]:\<newline>a passage'')),
             mk_row (Some (py ''q2'')) None None (Some (py ''[a.txt]:\<newline>a passage'')),
             mk_row (Some (py ''q3'')) (Some (py ''an answer'')) (Some (py ''- a.doc''))
               (Some (py ''[a.txt]:\<newline>a passage''))],
       answer_progress = {|0, 2|}, context_progress = {|0, 1, 2|},
       successful_answers = 2, successful_contexts = 3, completed_tasks = 6, saves = 1\<rparr>"
proof -
  show t1: "answer_tasks run1 = [(0, py ''q1''), (1, py ''q2''), (2, py ''q3'')]"
    by (simp add: run_fields(1) [OF assms] scenario_defs)
  show t2: "context_tasks run1 = [(0, py ''q1''), (1, py ''q2''), (2, py ''q3'')]"
    by (simp add: run_fields(2) [OF assms] scenario_defs)
  show "final run1 =
      \<lparr>fs = [py ''h'' \<mapsto> Pickled
               \<lparr>sd_file_hash = py ''h'',
                sd_df = [mk_row (Some (py ''q1'')) (Some (py ''an answer'')) (Some (py ''- a.doc''))
                           (Some (py ''[a.txt]:\<newline>a passage'')),
                         mk_row (Some (py ''q2'')) None None (Some (py ''[a.txt]:\<newline>a passage'')),
                         mk_row (Some (py ''q3'')) (Some (py ''an answer'')) (Some (py ''- a.doc''))
                           (Some (py ''[a.txt]:\<newline>a passage''))],
                sd_answer_progress = list_of_set {|0, 2|},
                sd_context_progress = list_of_set {|0, 1, 2|},
                sd_timestamp = py ''2024-05-01T10:00:00''\<rparr>],
       df = [mk_row (Some (py ''q1'')) (Some (py ''an answer'')) (Some (py ''- a.doc''))
               (Some (py ''[a.txt]:\<newline>a passage'')),
             mk_row (Some (py ''q2'')) None None (Some (py ''[a.txt]:\<newline>a passage'')),
             mk_row (Some (py ''q3'')) (Some (py ''an answer'')) (Some (py ''- a.doc''))
               (Some (py ''[a.txt]:\<newline>a passage''))],
       answer_progress = {|0, 2|}, context_progress = {|0, 1, 2|},
       successful_answers = 2, successful_contexts = 3, completed_tasks = 6, saves = 1\<rparr>"
    by (simp add: run_fields(3) [OF assms] t1 t2 scenario_defs) (auto simp: finsert_commute)
qed

lemma scenario_second_run:
  assumes "process_method2_file cjk second_answer_fails Map.empty (py ''h'') three_questions = Inr run1"
    and "process_method2_file cjk e2 (fs (final run1)) (py ''h'') three_questions = Inr run2"
  shows "answer_tasks run2 = [(1, py ''q2'')]" and "context_tasks run2 = []"
  by (simp_all add: run_fields(1,2) [OF assms(2)] scenario_first_run(3) [OF assms(1)] scenario_defs)

text \<open>
  The restart scenario for C2: in the first run the answer of row 1 fails; the second
  run, on the checkpoint of the first, builds one answer task (for row 1) and no context
  task.
\<close>

theorem tasks_built_exactly_witness:
  "\<exists>run1 run2.
     process_method2_file cjk second_answer_fails Map.empty (py ''h'') three_questions = Inr run1 \<and>
     save_fault second_answer_fails (saves (final run1) - 1) = NoFault \<and>
     process_method2_file cjk second_answer_fails (fs (final run1)) (py ''h'') three_questions = Inr run2 \<and>
     answer_progress (final run1) = {|0, 2|} \<and> context_progress (final run1) = {|0, 1, 2|} \<and>
     answer_tasks run2 = [(1, py ''q2'')] \<and> context_tasks run2 = [] \<and>
     list_all (\<lambda>t. fst t |\<notin>| answer_progress (final run1)) (answer_tasks run2)"
proof -
  obtain run1 where r1:
    "process_method2_file cjk second_answer_fails Map.empty (py ''h'') three_questions = Inr run1"
    by (simp add: process_method2_file_eq)
  obtain run2 where r2:
    "process_method2_file cjk second_answer_fails (fs (final run1)) (py ''h'') three_questions = Inr run2"
    by (simp add: process_method2_file_eq scenario_first_run(3) [OF r1])
  have nf: "save_fault second_answer_fails (saves (final run1) - 1) = NoFault"
    by (simp add: second_answer_fails_def)
  have "\<forall>t \<in> set (answer_tasks run2). fst t |\<notin>| answer_progress (final run1)"
    using tasks_built_exactly [where ?store0.0 = Map.empty and h = "py ''h''" and W = cjk
        and ?e1.0 = second_answer_fails and uploaded = three_questions and ?run1.0 = run1
        and ?e2.0 = second_answer_fails and ?run2.0 = run2] r1 r2 nf
    by blast
  then have la: "list_all (\<lambda>t. fst t |\<notin>| answer_progress (final run1)) (answer_tasks run2)"
    by (simp add: list_all_iff)
  show ?thesis
    using r1 r2 nf la scenario_second_run [OF r1 r2]
    by (auto simp: scenario_first_run(3) [OF r1])
qed

text \<open>
  The scenario of C6, with the rows numbered from 0: the answer request fails for row 1
  and succeeds for rows 0 and 2. After the run the answer progress set is \<open>{0, 2}\<close>, the
  answer of row 1 is still blank, and the next run builds exactly one answer task, for
  row 1.
\<close>

theorem failed_fetch_not_recorded_witness:
  "\<exists>run1 run2.
     load_processing_state Map.empty (py ''h'') = Inr None \<and>
     state_fields None = Inr None \<and>
     process_method2_file cjk second_answer_fails Map.empty (py ''h'') three_questions = Inr run1 \<and>
     mset (answer_order second_answer_fails (answer_tasks run1)) = mset (answer_tasks run1) \<and>
     (1, py ''q2'') \<in> set (answer_tasks run1) \<and>
     \<not> answer_ok second_answer_fails (1, py ''q2'') \<and>
     answer_progress (final run1) = {|0, 2|} \<and>
     1 |\<notin>| answer_progress (final run1) \<and>
     blank (ai_answer (df (final run1) ! 1)) \<and>
     process_method2_file cjk second_answer_fails (fs (final run1)) (py ''h'') three_questions = Inr run2 \<and>
     answer_tasks run2 = [(1, py ''q2'')]"
proof -
  obtain run1 where r1:
    "process_method2_file cjk second_answer_fails Map.empty (py ''h'') three_questions = Inr run1"
    by (simp add: process_method2_file_eq)
  obtain run2 where r2:
    "process_method2_file cjk second_answer_fails (fs (final run1)) (py ''h'') three_questions = Inr run2"
    by (simp add: process_method2_file_eq scenario_first_run(3) [OF r1])
  have ld: "load_processing_state Map.empty (py ''h'') = Inr None"
    by (simp add: load_processing_state_eq)
  have sf: "state_fields None = Inr None"
    by (simp add: state_fields_def)
  have perm: "mset (answer_order second_answer_fails (answer_tasks run1)) = mset (answer_tasks run1)"
    by (simp add: second_answer_fails_def)
  have t: "(1, py ''q2'') \<in> set (answer_tasks run1)"
    by (simp add: scenario_first_run(1) [OF r1])
  have nok: "\<not> answer_ok second_answer_fails (1, py ''q2'')"
    by (simp add: answer_ok_def second_answer_fails_def)
  have "1 |\<notin>| answer_progress (final run1) \<and> blank (ai_answer (df (final run1) ! 1))"
    using failed_fetch_not_recorded [OF ld sf r1, of "(1, py ''q2'')"] perm t nok
    by (simp only: fst_conv) blast
  then show ?thesis
    using r1 r2 ld sf perm t nok scenario_second_run(1) [OF r1 r2]
    by (auto simp: scenario_first_run(3) [OF r1])
qed
section \<open>Checkpoint store: results\<close>

text \<open>
  C8 (amended). For every store and every fingerprint the load raises nothing and
  returns what the state file of the fingerprint holds: the checkpoint when the file is a
  pickled checkpoint, the unpickled object when it is another object with a time stamp,
  and nothing when there is no file, when the file cannot be opened or unpickled, or when
  its content has no time stamp that can be read. What the file holds after a save for
  the same fingerprint: the checkpoint just saved when the write was completed (whether
  or not the save then reports success); a truncated file, for which the load returns
  nothing, when the save failed while writing, whatever was saved before; what the store
  held before when the save failed before its clean-up; what the clean-up left of it when
  the save failed after the clean-up and before opening the file. A save for another
  fingerprint changes the result only through its clean-up.
\<close>

theorem load_reads_the_file:
  "load_processing_state store h =
     Inr (case store h of
            Some (Pickled state) \<Rightarrow> Some (Checkpoint state)
          | Some PickledOther \<Rightarrow> Some NoCheckpoint
          | _ \<Rightarrow> None) \<and>
   load_processing_state (fst (save_processing_state NoFault sweep now store h table ap cp)) h =
     Inr (Some (Checkpoint \<lparr>sd_file_hash = h, sd_df = table, sd_answer_progress = list_of_set ap,
                              sd_context_progress = list_of_set cp, sd_timestamp = now\<rparr>)) \<and>
   load_processing_state (fst (save_processing_state FailAfterWrite sweep now store h table ap cp)) h =
     Inr (Some (Checkpoint \<lparr>sd_file_hash = h, sd_df = table, sd_answer_progress = list_of_set ap,
                              sd_context_progress = list_of_set cp, sd_timestamp = now\<rparr>)) \<and>
   load_processing_state (fst (save_processing_state FailWhileWriting sweep now store h table ap cp)) h =
     Inr None \<and>
   load_processing_state (fst (save_processing_state FailBeforeSweep sweep now store h table ap cp)) h =
     load_processing_state store h \<and>
   load_processing_state (fst (save_processing_state FailAfterSweep sweep now store h table ap cp)) h =
     load_processing_state (sweep store) h \<and>
   (h' \<noteq> h \<longrightarrow>
      load_processing_state (fst (save_processing_state fault sweep now store h' table ap cp)) h =
        load_processing_state (if fault = FailBeforeSweep then store else sweep store) h)"
  by (cases fault) (simp_all add: load_processing_state_eq save_processing_state_def)

text \<open>
  A save for another fingerprint, with a clean-up that deletes nothing, leaves the
  checkpoint of the first fingerprint to be loaded.
\<close>

theorem load_reads_the_file_witness:
  "py ''other'' \<noteq> py ''h'' \<and>
   load_processing_state
     (fst (save_processing_state NoFault (\<lambda>files. files) (py ''2024-05-01T11:00:00'')
        (fst (save_processing_state NoFault (\<lambda>files. files) (py ''2024-05-01T10:00:00'') Map.empty
                (py ''h'') three_questions {|0, 2|} {|1|}))
        (py ''other'') three_questions {||} {||})) (py ''h'') =
     Inr (Some (Checkpoint \<lparr>sd_file_hash = py ''h'', sd_df = three_questions,
                              sd_answer_progress = list_of_set {|0, 2|},
                              sd_context_progress = list_of_set {|1|},
                              sd_timestamp = py ''2024-05-01T10:00:00''\<rparr>))"
  using load_reads_the_file [of
      "fst (save_processing_state NoFault (\<lambda>files. files) (py ''2024-05-01T10:00:00'') Map.empty
              (py ''h'') three_questions {|0, 2|} {|1|})"
      "py ''h''" "\<lambda>files. files" "py ''2024-05-01T11:00:00''" three_questions "{||}" "{||}"
      "py ''other''" NoFault]
    load_reads_the_file [of Map.empty "py ''h''" "\<lambda>files. files" "py ''2024-05-01T10:00:00''"
      three_questions "{|0, 2|}" "{|1|}"]
  by (simp add: py_def)

text \<open>
  C8 as stated fails. A save succeeds; the next save for the same fingerprint fails while
  writing, after the file was opened for writing in place. The load then returns nothing,
  not the checkpoint that was last saved successfully.
\<close>

theorem lost_checkpoint_counterexample:
  "snd (save_processing_state NoFault (\<lambda>files. files) (py ''2024-05-01T10:00:00'') Map.empty
          (py ''h'') three_questions {|0, 2|} {|1|}) = True \<and>
   snd (save_processing_state FailWhileWriting (\<lambda>files. files) (py ''2024-05-01T11:00:00'')
          (fst (save_processing_state NoFault (\<lambda>files. files) (py ''2024-05-01T10:00:00'') Map.empty
                  (py ''h'') three_questions {|0, 2|} {|1|}))
          (py ''h'') three_questions {|0, 1, 2|} {|1|}) = False \<and>
   load_processing_state
     (fst (save_processing_state FailWhileWriting (\<lambda>files. files) (py ''2024-05-01T11:00:00'')
             (fst (save_processing_state NoFault (\<lambda>files. files) (py ''2024-05-01T10:00:00'') Map.empty
                     (py ''h'') three_questions {|0, 2|} {|1|}))
             (py ''h'') three_questions {|0, 1, 2|} {|1|})) (py ''h'') = Inr None"
  by (simp add: load_processing_state_def load_body_def save_processing_state_def)

text \<open>
  C9. A save that reports success, followed by a load for the same fingerprint, returns a
  checkpoint whose two progress lists hold exactly the indices of the sets passed to the
  save, and whose rows are the rows passed.
\<close>

theorem save_then_load:
  "save_processing_state fault sweep now store h table ap cp = (store', True) \<Longrightarrow>
   \<exists>state. load_processing_state store' h = Inr (Some (Checkpoint state)) \<and>
     fset_of_list (sd_answer_progress state) = ap \<and>
     fset_of_list (sd_context_progress state) = cp \<and>
     sd_df state = table"
  by (cases fault) (auto simp: load_processing_state_eq save_processing_state_def)

theorem save_then_load_witness:
  "snd (save_processing_state NoFault (\<lambda>files. files) (py ''2024-05-01T10:00:00'') Map.empty (py ''h'')
          three_questions {|0, 2|} {|1|}) = True \<and>
   (\<exists>state. load_processing_state
       (fst (save_processing_state NoFault (\<lambda>files. files) (py ''2024-05-01T10:00:00'') Map.empty (py ''h'')
          three_questions {|0, 2|} {|1|})) (py ''h'') = Inr (Some (Checkpoint state)) \<and>
     fset_of_list (sd_answer_progress state) = {|0, 2|} \<and>
     fset_of_list (sd_context_progress state) = {|1|} \<and>
     sd_df state = three_questions)"
  using save_then_load [of NoFault "\<lambda>files. files" "py ''2024-05-01T10:00:00''" Map.empty "py ''h''"
      three_questions "{|0, 2|}" "{|1|}"
      "fst (save_processing_state NoFault (\<lambda>files. files) (py ''2024-05-01T10:00:00'') Map.empty (py ''h'')
          three_questions {|0, 2|} {|1|})"]
  by (simp add: save_processing_state_def)

section \<open>Evaluation entry points: results\<close>

text \<open>
  C7. With an empty list of metrics, or with an empty list of aligned records, the
  evaluation returns an error and the scoring collaborator is not called: the number of
  calls is 0. \<^verbatim>\<open>evaluate_partial_data\<close> rejects an empty metric list before it reads
  anything, and \<^verbatim>\<open>evaluate_dataset\<close> rejects an empty record list first; with valid
  records and a working set-up the error for an empty metric list is the one that asks for
  a metric. The collaborator is called only with records and metrics at hand.
\<close>

theorem rejected_before_scoring:
  "evaluate_partial_data W setup score store h uploaded [] = Inr (Inl NoMetricSelected, 0) \<and>
   evaluate_dataset setup score [] selected_metrics = (Inl NoData, 0) \<and>
   (\<exists>err. evaluate_dataset setup score evaluation_data [] = (Inl err, 0)) \<and>
   (filter valid_sample evaluation_data \<noteq> [] \<longrightarrow>
      evaluate_dataset None score evaluation_data [] = (Inl NoMetricSelected, 0)) \<and>
   (snd (evaluate_dataset setup score evaluation_data selected_metrics) \<noteq> 0 \<longrightarrow>
      evaluation_data \<noteq> [] \<and> selected_metrics \<noteq> [])"
  by (auto simp: evaluate_partial_data_def evaluate_dataset_def Let_def
      split: option.splits sum.splits)

theorem rejected_before_scoring_witness:
  "filter valid_sample [\<lparr>a_question = py ''q'', a_answer = py ''a'', a_contexts = [py ''a passage''],
                          a_ground_truth = py ''a''\<rparr>] \<noteq> [] \<and>
   evaluate_dataset None (\<lambda>batch metrics. Inr (0::nat))
      [\<lparr>a_question = py ''q'', a_answer = py ''a'', a_contexts = [py ''a passage''],
         a_ground_truth = py ''a''\<rparr>] [] = (Inl NoMetricSelected, 0) \<and>
   evaluate_dataset None (\<lambda>batch metrics. Inr (0::nat))
      [\<lparr>a_question = py ''q'', a_answer = py ''a'', a_contexts = [py ''a passage''],
         a_ground_truth = py ''a''\<rparr>] [py ''faithfulness''] = (Inr 0, 1)"
  using rejected_before_scoring [of cjk None "\<lambda>batch metrics. Inr (0::nat)" Map.empty "py ''h''" "[]"
      "[]" "[\<lparr>a_question = py ''q'', a_answer = py ''a'', a_contexts = [py ''a passage''],
              a_ground_truth = py ''a''\<rparr>]"]
  by (simp add: valid_sample_def strip_def py_def isspace_def evaluate_dataset_def metric_map_def)
section \<open>Retry loops: auxiliary facts\<close>

lemma wait_time_eq:
  "wait_time rng error_msg attempt w =
     (classified_wait error_msg attempt (rng (draws w)), w\<lparr>draws := draws w + 1\<rparr>)"
  by (simp add: wait_time_def classified_wait_def uniform_def base_delay_def)

lemma classified_wait_bounds:
  assumes "0 \<le> u" and "u \<le> 1"
  shows "connection_signature msg \<Longrightarrow>
           5 * 3 ^ a + 5 \<le> classified_wait msg a u \<and> classified_wait msg a u \<le> 5 * 3 ^ a + 15"
    and "\<not> connection_signature msg \<Longrightarrow> rate_limit_signature msg \<Longrightarrow>
           5 * 4 ^ a + 10 \<le> classified_wait msg a u \<and> classified_wait msg a u \<le> 5 * 4 ^ a + 30"
    and "\<not> connection_signature msg \<Longrightarrow> \<not> rate_limit_signature msg \<Longrightarrow>
           6 \<le> classified_wait msg a u \<and> classified_wait msg a u \<le> 10"
  using assms by (simp_all add: classified_wait_def)

lemmas attempt_defs =
  uniform_def emit_event_def evaluate_def wait_time_eq jitter_events_def draws_per_attempt_def
  failed_attempt_def last_attempt_def Let_def

lemma loop_fail_step:
  assumes "attempt + 1 < max_retries" and "scorer (calls w) batch = Inl msg"
  shows "evaluate_batch_loop scorer rng batch batch_num max_retries attempt w =
         evaluate_batch_loop scorer rng batch batch_num max_retries (attempt + 1)
           \<lparr>calls = calls w + 1, draws = draws w + draws_per_attempt batch_num,
            trace = trace w @ failed_attempt rng batch batch_num (draws w) msg attempt\<rparr>"
  using assms
  by (subst evaluate_batch_loop.simps, cases w)
     (simp add: attempt_defs del: evaluate_batch_loop.simps)

lemma loop_success_step:
  assumes "attempt < max_retries" and "scorer (calls w) batch = Inr r"
  shows "evaluate_batch_loop scorer rng batch batch_num max_retries attempt w =
         (Some r, \<lparr>calls = calls w + 1, draws = draws w + (draws_per_attempt batch_num - 1),
                   trace = trace w @ last_attempt rng batch batch_num (draws w)\<rparr>)"
  using assms
  by (subst evaluate_batch_loop.simps, cases w)
     (simp add: attempt_defs del: evaluate_batch_loop.simps)

lemma loop_last_fail:
  assumes "attempt + 1 = max_retries" and "scorer (calls w) batch = Inl msg"
  shows "evaluate_batch_loop scorer rng batch batch_num max_retries attempt w =
         (None, \<lparr>calls = calls w + 1, draws = draws w + (draws_per_attempt batch_num - 1),
                 trace = trace w @ last_attempt rng batch batch_num (draws w)\<rparr>)"
proof -
  have stop: "evaluate_batch_loop scorer rng batch batch_num max_retries max_retries w' = (None, w')" for w'
    by (subst evaluate_batch_loop.simps) simp
  show ?thesis
    using assms
    by (subst evaluate_batch_loop.simps, cases w)
       (simp add: attempt_defs stop del: evaluate_batch_loop.simps)
qed

lemma loop_succeeds_after:
  assumes "a + n < max_retries"
    and "\<forall>i<n. scorer (calls w + i) batch = Inl (msgs (a + i))"
    and "scorer (calls w + n) batch = Inr r"
  shows "evaluate_batch_loop scorer rng batch batch_num max_retries a w =
         (Some r,
          \<lparr>calls = calls w + n + 1,
           draws = draws w + n * draws_per_attempt batch_num + (draws_per_attempt batch_num - 1),
           trace = trace w @
             concat (map (\<lambda>i. failed_attempt rng batch batch_num
                                 (draws w + i * draws_per_attempt batch_num) (msgs (a + i)) (a + i)) [0..<n]) @
             last_attempt rng batch batch_num (draws w + n * draws_per_attempt batch_num)\<rparr>)"
  using assms
proof (induction n arbitrary: a w)
  case 0
  then show ?case by (simp add: loop_success_step del: evaluate_batch_loop.simps)
next
  case (Suc n)
  let ?w = "\<lparr>calls = calls w + 1, draws = draws w + draws_per_attempt batch_num,
            trace = trace w @ failed_attempt rng batch batch_num (draws w) (msgs a) a\<rparr>"
  have f0: "scorer (calls w) batch = Inl (msgs a)"
    using Suc.prems(2) by (metis add.right_neutral zero_less_Suc)
  have step: "evaluate_batch_loop scorer rng batch batch_num max_retries a w =
              evaluate_batch_loop scorer rng batch batch_num max_retries (a + 1) ?w"
    using Suc.prems(1) f0 by (intro loop_fail_step) simp_all
  have ih: "evaluate_batch_loop scorer rng batch batch_num max_retries (a + 1) ?w =
         (Some r,
          \<lparr>calls = calls ?w + n + 1,
           draws = draws ?w + n * draws_per_attempt batch_num + (draws_per_attempt batch_num - 1),
           trace = trace ?w @
             concat (map (\<lambda>i. failed_attempt rng batch batch_num
                                 (draws ?w + i * draws_per_attempt batch_num) (msgs (a + 1 + i)) (a + 1 + i)) [0..<n]) @
             last_attempt rng batch batch_num (draws ?w + n * draws_per_attempt batch_num)\<rparr>)"
  proof (rule Suc.IH)
    show "a + 1 + n < max_retries" using Suc.prems(1) by simp
    show "\<forall>i<n. scorer (calls ?w + i) batch = Inl (msgs (a + 1 + i))"
      using Suc.prems(2) by (auto simp: add.commute add.left_commute dest: spec [of _ "Suc _"])
    show "scorer (calls ?w + n) batch = Inr r"
      using Suc.prems(3) by simp
  qed
  show ?case
    unfolding step ih
    by (simp add: upt_0_Suc_shift o_def add.commute add.left_commute algebra_simps del: upt_Suc)
qed
lemma loop_exhausted:
  assumes "a + n + 1 = max_retries"
    and "\<forall>i\<le>n. scorer (calls w + i) batch = Inl (msgs (a + i))"
  shows "evaluate_batch_loop scorer rng batch batch_num max_retries a w =
         (None,
          \<lparr>calls = calls w + n + 1,
           draws = draws w + n * draws_per_attempt batch_num + (draws_per_attempt batch_num - 1),
           trace = trace w @
             concat (map (\<lambda>i. failed_attempt rng batch batch_num
                                 (draws w + i * draws_per_attempt batch_num) (msgs (a + i)) (a + i)) [0..<n]) @
             last_attempt rng batch batch_num (draws w + n * draws_per_attempt batch_num)\<rparr>)"
  using assms
proof (induction n arbitrary: a w)
  case 0
  then show ?case by (simp add: loop_last_fail del: evaluate_batch_loop.simps)
next
  case (Suc n)
  let ?w = "\<lparr>calls = calls w + 1, draws = draws w + draws_per_attempt batch_num,
            trace = trace w @ failed_attempt rng batch batch_num (draws w) (msgs a) a\<rparr>"
  have f0: "scorer (calls w) batch = Inl (msgs a)"
    using Suc.prems(2) by (metis add.right_neutral le0)
  have step: "evaluate_batch_loop scorer rng batch batch_num max_retries a w =
              evaluate_batch_loop scorer rng batch batch_num max_retries (a + 1) ?w"
    using Suc.prems(1) f0 by (intro loop_fail_step) simp_all
  have ih: "evaluate_batch_loop scorer rng batch batch_num max_retries (a + 1) ?w =
         (None,
          \<lparr>calls = calls ?w + n + 1,
           draws = draws ?w + n * draws_per_attempt batch_num + (draws_per_attempt batch_num - 1),
           trace = trace ?w @
             concat (map (\<lambda>i. failed_attempt rng batch batch_num
                                 (draws ?w + i * draws_per_attempt batch_num) (msgs (a + 1 + i)) (a + 1 + i)) [0..<n]) @
             last_attempt rng batch batch_num (draws ?w + n * draws_per_attempt batch_num)\<rparr>)"
  proof (rule Suc.IH)
    show "a + 1 + n + 1 = max_retries" using Suc.prems(1) by simp
    show "\<forall>i\<le>n. scorer (calls ?w + i) batch = Inl (msgs (a + 1 + i))"
      using Suc.prems(2) by (auto simp: add.commute add.left_commute dest: spec [of _ "Suc _"])
  qed
  show ?case
    unfolding step ih
    by (simp add: upt_0_Suc_shift o_def add.commute add.left_commute algebra_simps del: upt_Suc)
qed

lemma run_loop_fail_step:
  assumes "attempt + 1 < max_retries" and "scorer (calls w) dataset = Inl msg"
  shows "run_evaluation_loop scorer dataset max_retries attempt w =
         run_evaluation_loop scorer dataset max_retries (attempt + 1)
           \<lparr>calls = calls w + 1, draws = draws w,
            trace = trace w @ [Evaluate dataset, Wait (real ((attempt + 1) * 10))]\<rparr>"
  using assms
  by (subst run_evaluation_loop.simps, cases w)
     (simp add: attempt_defs del: run_evaluation_loop.simps)

lemma run_loop_success_step:
  assumes "attempt < max_retries" and "scorer (calls w) dataset = Inr r"
  shows "run_evaluation_loop scorer dataset max_retries attempt w =
         (Inr (Some r), \<lparr>calls = calls w + 1, draws = draws w, trace = trace w @ [Evaluate dataset]\<rparr>)"
  using assms
  by (subst run_evaluation_loop.simps, cases w)
     (simp add: attempt_defs del: run_evaluation_loop.simps)

lemma run_loop_succeeds_after:
  assumes "a + n < max_retries"
    and "\<forall>i<n. scorer (calls w + i) dataset = Inl (msgs (a + i))"
    and "scorer (calls w + n) dataset = Inr r"
  shows "run_evaluation_loop scorer dataset max_retries a w =
         (Inr (Some r),
          \<lparr>calls = calls w + n + 1, draws = draws w,
           trace = trace w @
             concat (map (\<lambda>i. [Evaluate dataset, Wait (real ((a + i + 1) * 10))]) [0..<n]) @
             [Evaluate dataset]\<rparr>)"
  using assms
proof (induction n arbitrary: a w)
  case 0
  then show ?case by (simp add: run_loop_success_step del: run_evaluation_loop.simps)
next
  case (Suc n)
  let ?w = "\<lparr>calls = calls w + 1, draws = draws w,
            trace = trace w @ [Evaluate dataset, Wait (real ((a + 1) * 10))]\<rparr>"
  have f0: "scorer (calls w) dataset = Inl (msgs a)"
    using Suc.prems(2) by (metis add.right_neutral zero_less_Suc)
  have step: "run_evaluation_loop scorer dataset max_retries a w =
              run_evaluation_loop scorer dataset max_retries (a + 1) ?w"
    using Suc.prems(1) f0 by (intro run_loop_fail_step) simp_all
  have ih: "run_evaluation_loop scorer dataset max_retries (a + 1) ?w =
         (Inr (Some r),
          \<lparr>calls = calls ?w + n + 1, draws = draws ?w,
           trace = trace ?w @
             concat (map (\<lambda>i. [Evaluate dataset, Wait (real ((a + 1 + i + 1) * 10))]) [0..<n]) @
             [Evaluate dataset]\<rparr>)"
  proof (rule Suc.IH)
    show "a + 1 + n < max_retries" using Suc.prems(1) by simp
    show "\<forall>i<n. scorer (calls ?w + i) dataset = Inl (msgs (a + 1 + i))"
      using Suc.prems(2) by (auto simp: add.commute add.left_commute dest: spec [of _ "Suc _"])
    show "scorer (calls ?w + n) dataset = Inr r"
      using Suc.prems(3) by simp
  qed
  show ?case
    unfolding step ih
    by (simp add: upt_0_Suc_shift o_def add.commute add.left_commute algebra_simps del: upt_Suc)
qed

section \<open>Retry loops: results\<close>

text \<open>
  C3 (amended). The retry loop of a batch (\<^verbatim>\<open>_evaluate_batch\<close>) makes up to
  \<open>max_retries\<close> attempts one after the other (3 where the caller does not say). If the
  collaborator fails \<open>k < max_retries\<close> times and then succeeds, the loop returns that
  result; if it fails \<open>max_retries\<close> times, the loop returns nothing; in both cases the
  effects are the same: after each failed attempt but the last possible one a wait of
  base * 3 ^ attempt + uniform(5, 15) for a connection or timeout error,
  base * 4 ^ attempt + uniform(10, 30) for a rate or limit error that is no connection or
  timeout error, base + uniform(1, 5) otherwise, with base = 5 and the attempts counted
  from 0. For a random value between 0 and 1 the waits lie between the bounds of their
  class. The loop of the one-shot evaluation (\<^verbatim>\<open>run_evaluation\<close>) does not classify:
  after the failed attempt \<open>i\<close> it waits (i + 1) * 10.
\<close>

theorem batch_retry_backoff:
  "(k < max_retries \<and> (\<forall>i<k. scorer (calls w + i) batch = Inl (msgs i)) \<and>
    scorer (calls w + k) batch = Inr r \<longrightarrow>
      evaluate_batch scorer rng batch batch_num max_retries w =
        (Some r,
         \<lparr>calls = calls w + k + 1,
          draws = draws w + k * draws_per_attempt batch_num + (draws_per_attempt batch_num - 1),
          trace = trace w @
            concat (map (\<lambda>i. failed_attempt rng batch batch_num
                                (draws w + i * draws_per_attempt batch_num) (msgs i) i) [0..<k]) @
            last_attempt rng batch batch_num (draws w + k * draws_per_attempt batch_num)\<rparr>)) \<and>
   (k + 1 = max_retries \<and> (\<forall>i\<le>k. scorer (calls w + i) batch = Inl (msgs i)) \<longrightarrow>
      evaluate_batch scorer rng batch batch_num max_retries w =
        (None,
         \<lparr>calls = calls w + k + 1,
          draws = draws w + k * draws_per_attempt batch_num + (draws_per_attempt batch_num - 1),
          trace = trace w @
            concat (map (\<lambda>i. failed_attempt rng batch batch_num
                                (draws w + i * draws_per_attempt batch_num) (msgs i) i) [0..<k]) @
            last_attempt rng batch batch_num (draws w + k * draws_per_attempt batch_num)\<rparr>)) \<and>
   evaluate_batch scorer rng batch batch_num 0 w = (None, w) \<and>
   (0 \<le> u \<and> u \<le> 1 \<longrightarrow>
      (connection_signature msg \<longrightarrow>
         5 * 3 ^ a + 5 \<le> classified_wait msg a u \<and> classified_wait msg a u \<le> 5 * 3 ^ a + 15) \<and>
      (\<not> connection_signature msg \<and> rate_limit_signature msg \<longrightarrow>
         5 * 4 ^ a + 10 \<le> classified_wait msg a u \<and> classified_wait msg a u \<le> 5 * 4 ^ a + 30) \<and>
      (\<not> connection_signature msg \<and> \<not> rate_limit_signature msg \<longrightarrow>
         5 + 1 \<le> classified_wait msg a u \<and> classified_wait msg a u \<le> 5 + 5)) \<and>
   (k < max_retries \<and> (\<forall>i<k. scorer (calls w + i) batch = Inl (msgs i)) \<and>
    scorer (calls w + k) batch = Inr r \<longrightarrow>
      run_evaluation scorer batch max_retries w =
        (Inr (Some r),
         \<lparr>calls = calls w + k + 1, draws = draws w,
          trace = trace w @
            concat (map (\<lambda>i. [Evaluate batch, Wait (real ((i + 1) * 10))]) [0..<k]) @
            [Evaluate batch]\<rparr>))"
proof (intro conjI impI)
  assume "k < max_retries \<and> (\<forall>i<k. scorer (calls w + i) batch = Inl (msgs i)) \<and>
    scorer (calls w + k) batch = Inr r"
  then show "evaluate_batch scorer rng batch batch_num max_retries w =
        (Some r,
         \<lparr>calls = calls w + k + 1,
          draws = draws w + k * draws_per_attempt batch_num + (draws_per_attempt batch_num - 1),
          trace = trace w @
            concat (map (\<lambda>i. failed_attempt rng batch batch_num
                                (draws w + i * draws_per_attempt batch_num) (msgs i) i) [0..<k]) @
            last_attempt rng batch batch_num (draws w + k * draws_per_attempt batch_num)\<rparr>)"
    unfolding evaluate_batch_def
    using loop_succeeds_after [of 0 k max_retries scorer w batch msgs r rng batch_num] by simp
next
  assume "k + 1 = max_retries \<and> (\<forall>i\<le>k. scorer (calls w + i) batch = Inl (msgs i))"
  then show "evaluate_batch scorer rng batch batch_num max_retries w =
        (None,
         \<lparr>calls = calls w + k + 1,
          draws = draws w + k * draws_per_attempt batch_num + (draws_per_attempt batch_num - 1),
          trace = trace w @
            concat (map (\<lambda>i. failed_attempt rng batch batch_num
                                (draws w + i * draws_per_attempt batch_num) (msgs i) i) [0..<k]) @
            last_attempt rng batch batch_num (draws w + k * draws_per_attempt batch_num)\<rparr>)"
    unfolding evaluate_batch_def
    using loop_exhausted [of 0 k max_retries scorer w batch msgs rng batch_num] by simp
next
  show "evaluate_batch scorer rng batch batch_num 0 w = (None, w)"
    unfolding evaluate_batch_def by (subst evaluate_batch_loop.simps) simp
next
  assume "k < max_retries \<and> (\<forall>i<k. scorer (calls w + i) batch = Inl (msgs i)) \<and>
    scorer (calls w + k) batch = Inr r"
  then show "run_evaluation scorer batch max_retries w =
        (Inr (Some r),
         \<lparr>calls = calls w + k + 1, draws = draws w,
          trace = trace w @
            concat (map (\<lambda>i. [Evaluate batch, Wait (real ((i + 1) * 10))]) [0..<k]) @
            [Evaluate batch]\<rparr>)"
    unfolding run_evaluation_def
    using run_loop_succeeds_after [of 0 k max_retries scorer w batch msgs r] by simp
qed (use classified_wait_bounds in \<open>simp_all\<close>)
lemma rate_limit_message:
  "rate_limit_signature (py ''Rate limit exceeded'')" "\<not> connection_signature (py ''Rate limit exceeded'')"
  by (simp_all add: rate_limit_signature_def connection_signature_def py_def lower_def)

text \<open>
  The scenario of C3 on the first batch: the collaborator raises a rate-limit error on
  attempts 1 and 2 and succeeds on attempt 3, with \<open>max_retries = 3\<close>. The result of the
  third attempt is returned; the two waits are 25 and 40 for the random value one half,
  within the bounds 5 * 4 ^ 0 + [10, 30] and 5 * 4 ^ 1 + [10, 30].
\<close>

theorem batch_retry_backoff_witness:
  "evaluate_batch rate_limited_twice half one_sample 1 3 world0 =
     (Some 42,
      \<lparr>calls = 3, draws = 2,
       trace = [Evaluate one_sample, Wait 25, Evaluate one_sample, Wait 40, Evaluate one_sample]\<rparr>) \<and>
   5 * 4 ^ 0 + 10 \<le> (25::real) \<and> (25::real) \<le> 5 * 4 ^ 0 + 30 \<and>
   5 * 4 ^ 1 + 10 \<le> (40::real) \<and> (40::real) \<le> 5 * 4 ^ 1 + 30"
proof -
  have f: "\<forall>i<2. rate_limited_twice (calls world0 + i) one_sample = Inl (py ''Rate limit exceeded'')"
    by (simp add: rate_limited_twice_def world0_def)
  have s: "rate_limited_twice (calls world0 + 2) one_sample = Inr 42"
    by (simp add: rate_limited_twice_def world0_def)
  have "evaluate_batch rate_limited_twice half one_sample 1 3 world0 =
        (Some 42,
         \<lparr>calls = calls world0 + 2 + 1,
          draws = draws world0 + 2 * draws_per_attempt 1 + (draws_per_attempt 1 - 1),
          trace = trace world0 @
            concat (map (\<lambda>i. failed_attempt half one_sample 1
                                (draws world0 + i * draws_per_attempt 1) (py ''Rate limit exceeded'') i) [0..<2]) @
            last_attempt half one_sample 1 (draws world0 + 2 * draws_per_attempt 1)\<rparr>)"
    using batch_retry_backoff [of 2 3 rate_limited_twice world0 one_sample
        "\<lambda>i. py ''Rate limit exceeded''" 42 half 1] f s
    by simp
  moreover have "[0..<2] = [0, Suc 0]"
    by (simp add: numeral_2_eq_2)
  ultimately show ?thesis
    by (simp add: world0_def draws_per_attempt_def failed_attempt_def last_attempt_def
        jitter_events_def classified_wait_def rate_limit_message half_def)
qed

text \<open>
  C3 as stated fails for the one-shot retry loop. In the same scenario
  \<^verbatim>\<open>run_evaluation\<close> returns the result of the third attempt, but it waits 10 and 20,
  below the rate-limit bounds 5 * 4 ^ 0 + 10 and 5 * 4 ^ 1 + 10.
\<close>

theorem one_shot_waits_counterexample:
  "run_evaluation rate_limited_twice one_sample 3 world0 =
     (Inr (Some 42),
      \<lparr>calls = 3, draws = 0,
       trace = [Evaluate one_sample, Wait 10, Evaluate one_sample, Wait 20, Evaluate one_sample]\<rparr>) \<and>
   rate_limit_signature (py ''Rate limit exceeded'') \<and>
   \<not> connection_signature (py ''Rate limit exceeded'') \<and>
   \<not> 5 * 4 ^ 0 + 10 \<le> (10::real) \<and> \<not> 5 * 4 ^ 1 + 10 \<le> (20::real)"
  by (simp add: run_evaluation_def rate_limited_twice_def world0_def evaluate_def emit_event_def
      rate_limit_message)
section \<open>Batched evaluation: auxiliary facts\<close>

lemma batch_slice_eq: "batch_slice dataset batch_size i = take batch_size (drop (i * batch_size) dataset)"
  by (auto simp: batch_slice_def Let_def min_def)

lemma concat_slices:
  "concat (map (\<lambda>i. take b (drop (i * b) xs)) [0..<n]) = take (n * b) xs"
proof (induction n)
  case 0
  then show ?case by simp
next
  case (Suc n)
  have "take (n * b) xs @ take b (drop (n * b) xs) = take (n * b + b) xs"
    by (simp add: take_add)
  then show ?case using Suc by (simp add: add.commute)
qed

lemma num_batches_covers:
  assumes "0 < (b::nat)"
  shows "len \<le> ((len + b - 1) div b) * b"
    and "i < (len + b - 1) div b \<Longrightarrow> i * b < len"
proof -
  have m: "(len + b - 1) mod b < b" using assms by simp
  have e: "((len + b - 1) div b) * b + (len + b - 1) mod b = len + b - 1"
    by (simp add: div_mult_mod_eq)
  show "len \<le> ((len + b - 1) div b) * b"
    using m e assms by linarith
  assume "i < (len + b - 1) div b"
  then have "Suc i \<le> (len + b - 1) div b" by simp
  then have "Suc i * b \<le> ((len + b - 1) div b) * b" by (rule mult_le_mono1)
  then have "i * b + b \<le> ((len + b - 1) div b) * b" by simp
  moreover have "((len + b - 1) div b) * b \<le> len + b - 1" using e by linarith
  ultimately have "i * b + b \<le> len + b - 1" by linarith
  then show "i * b < len" using assms by linarith
qed

lemma batches_loop_eq:
  "batches_loop scorer rng dataset batch_size is (acc, n, w) =
     (acc @ List.map_filter (\<lambda>x. x) (map fst (chunk_runs scorer rng dataset batch_size is w)),
      n + length (List.map_filter (\<lambda>x. x) (map fst (chunk_runs scorer rng dataset batch_size is w))),
      last (w # map snd (chunk_runs scorer rng dataset batch_size is w)))"
proof (induction "is" arbitrary: acc n w)
  case Nil
  then show ?case by (simp add: List.map_filter_simps)
next
  case (Cons i "is")
  show ?case
    by (cases "evaluate_batch scorer rng (batch_slice dataset batch_size i) (i + 1) 3 w")
       (auto simp: Cons List.map_filter_simps split: option.splits)
qed

lemma first_success_eq:
  "first_success outcomes = (case List.map_filter (\<lambda>x. x) outcomes of [] \<Rightarrow> None | r # _ \<Rightarrow> Some r)"
  by (induction outcomes rule: first_success.induct) (simp_all add: List.map_filter_simps)

lemma length_chunk_runs: "length (chunk_runs scorer rng dataset batch_size is w) = length is"
  by (induction "is" arbitrary: w) simp_all

lemma loop_trace_extends:
  "\<exists>evs. trace (snd (evaluate_batch_loop scorer rng batch batch_num max_retries a w)) = trace w @ evs"
proof (induction "max_retries - a" arbitrary: a w)
  case 0
  then have "evaluate_batch_loop scorer rng batch batch_num max_retries a w = (None, w)"
    by (subst evaluate_batch_loop.simps) simp
  then show ?case by simp
next
  case (Suc n)
  then have lt: "a < max_retries" by simp
  show ?case
  proof (cases "scorer (calls w) batch")
    case (Inr r)
    then show ?thesis using loop_success_step [where scorer=scorer and w=w and batch=batch, OF lt Inr] by simp
  next
    case (Inl msg)
    show ?thesis
    proof (cases "a + 1 < max_retries")
      case True
      let ?w = "\<lparr>calls = calls w + 1, draws = draws w + draws_per_attempt batch_num,
                trace = trace w @ failed_attempt rng batch batch_num (draws w) msg a\<rparr>"
      have "n = max_retries - (a + 1)" using Suc.hyps(2) by simp
      then obtain evs where
        "trace (snd (evaluate_batch_loop scorer rng batch batch_num max_retries (a + 1) ?w)) = trace ?w @ evs"
        using Suc.hyps(1) by blast
      then show ?thesis using loop_fail_step [where scorer=scorer and w=w and batch=batch, OF True Inl] by simp
    next
      case False
      then have "a + 1 = max_retries" using lt by simp
      then show ?thesis using loop_last_fail [where scorer=scorer and w=w and batch=batch, OF _ Inl] by simp
    qed
  qed
qed

lemma first_attempt_events:
  assumes "0 < max_retries"
  shows "\<exists>rest. trace (snd (evaluate_batch scorer rng batch batch_num max_retries w)) =
           trace w @ jitter_events rng batch_num (draws w) @ Evaluate batch # rest"
proof (cases "scorer (calls w) batch")
  case (Inr r)
  then show ?thesis
    using loop_success_step [where scorer=scorer and w=w and batch=batch, OF assms Inr] by (simp add: evaluate_batch_def last_attempt_def)
next
  case (Inl msg)
  show ?thesis
  proof (cases "0 + 1 < max_retries")
    case True
    let ?w = "\<lparr>calls = calls w + 1, draws = draws w + draws_per_attempt batch_num,
              trace = trace w @ failed_attempt rng batch batch_num (draws w) msg 0\<rparr>"
    obtain evs where
      "trace (snd (evaluate_batch_loop scorer rng batch batch_num max_retries (0 + 1) ?w)) = trace ?w @ evs"
      using loop_trace_extends by blast
    then show ?thesis
      using loop_fail_step [where scorer=scorer and w=w and batch=batch, OF True Inl] by (simp add: evaluate_batch_def failed_attempt_def)
  next
    case False
    then have "0 + 1 = max_retries" using assms by simp
    then show ?thesis
      using loop_last_fail [where scorer=scorer and w=w and batch=batch, OF _ Inl] by (simp add: evaluate_batch_def last_attempt_def)
  qed
qed
section \<open>Batched evaluation: results\<close>

lemma first_success_none: "first_success outcomes = None \<longleftrightarrow> list_all (\<lambda>x. x = None) outcomes"
  by (induction outcomes rule: first_success.induct) simp_all

text \<open>
  C4. For a positive batch size (10 where the caller does not say) the batched
  evaluation cuts the data into consecutive batches of that size, the last one possibly
  shorter and none empty; it runs the retry loop (three attempts) on every batch in turn,
  each in the world the previous batch left, whether or not the previous batches
  succeeded; the loop of a batch after the first starts with a jitter sleep of
  uniform(0.5, 2.0), the loop of the first batch with the call of the collaborator. The value returned is the
  result of the first batch whose loop succeeded, and nothing if the loop failed on every
  batch.
\<close>

theorem chunked_evaluation:
  assumes "0 < batch_size"
  shows
    "(let num_batches = (length dataset + batch_size - 1) div batch_size;
          runs = chunk_runs scorer rng dataset batch_size [0..<num_batches] w
      in run_batch_evaluation scorer rng dataset batch_size w =
           (Inr (first_success (map fst runs)), last (w # map snd runs)) \<and>
         length runs = num_batches \<and>
         (fst (run_batch_evaluation scorer rng dataset batch_size w) = Inr None \<longleftrightarrow>
            list_all (\<lambda>run. fst run = None) runs) \<and>
         concat (map (batch_slice dataset batch_size) [0..<num_batches]) = dataset \<and>
         (i < num_batches \<longrightarrow>
            batch_slice dataset batch_size i \<noteq> [] \<and>
            length (batch_slice dataset batch_size i) \<le> batch_size \<and>
            (i + 1 < num_batches \<longrightarrow> length (batch_slice dataset batch_size i) = batch_size))) \<and>
     (\<exists>rest. trace (snd (evaluate_batch scorer rng batch (i + 1) 3 w')) =
        trace w' @ jitter_events rng (i + 1) (draws w') @ Evaluate batch # rest) \<and>
     jitter_events rng (i + 1) d = (if i = 0 then [] else [Jitter (0.5 + (2.0 - 0.5) * rng d)]) \<and>
     (0 \<le> u \<and> u \<le> 1 \<longrightarrow> 0.5 \<le> 0.5 + (2.0 - 0.5) * u \<and> 0.5 + (2.0 - 0.5) * u \<le> (2.0::real))"
proof -
  define num_batches where "num_batches = (length dataset + batch_size - 1) div batch_size"
  define runs where "runs = chunk_runs scorer rng dataset batch_size [0..<num_batches] w"
  have res: "run_batch_evaluation scorer rng dataset batch_size w =
      (Inr (first_success (map fst runs)), last (w # map snd runs))"
    using assms
    by (simp add: run_batch_evaluation_def batches_loop_eq first_success_eq merge_results_def
        runs_def num_batches_def Let_def split: list.splits)
  have len: "length runs = num_batches"
    by (simp add: runs_def length_chunk_runs)
  have none: "fst (run_batch_evaluation scorer rng dataset batch_size w) = Inr None \<longleftrightarrow>
      list_all (\<lambda>run. fst run = None) runs"
    by (simp add: res first_success_none list_all_iff)
  have cover: "length dataset \<le> num_batches * batch_size"
    unfolding num_batches_def by (rule num_batches_covers(1) [OF assms])
  have parts: "concat (map (batch_slice dataset batch_size) [0..<num_batches]) = dataset"
  proof -
    have "batch_slice dataset batch_size = (\<lambda>i. take batch_size (drop (i * batch_size) dataset))"
      by (rule ext) (rule batch_slice_eq)
    then show ?thesis using cover by (simp add: concat_slices)
  qed
  have sizes: "batch_slice dataset batch_size i \<noteq> [] \<and>
      length (batch_slice dataset batch_size i) \<le> batch_size \<and>
      (i + 1 < num_batches \<longrightarrow> length (batch_slice dataset batch_size i) = batch_size)"
    if i: "i < num_batches"
  proof -
    have a: "i * batch_size < length dataset"
      using i unfolding num_batches_def by (rule num_batches_covers(2) [OF assms])
    have b: "(i + 1) * batch_size < length dataset" if "i + 1 < num_batches"
      using that unfolding num_batches_def by (rule num_batches_covers(2) [OF assms])
    show ?thesis
      using a b assms by (auto simp: batch_slice_eq min_def)
  qed
  have jit: "\<exists>rest. trace (snd (evaluate_batch scorer rng batch (i + 1) 3 w')) =
        trace w' @ jitter_events rng (i + 1) (draws w') @ Evaluate batch # rest"
    by (rule first_attempt_events) simp
  have jev: "jitter_events rng (i + 1) d = (if i = 0 then [] else [Jitter (0.5 + (2.0 - 0.5) * rng d)])"
    by (simp add: jitter_events_def)
  have bounds: "0 \<le> u \<and> u \<le> 1 \<longrightarrow> 0.5 \<le> 0.5 + (2.0 - 0.5) * u \<and> 0.5 + (2.0 - 0.5) * u \<le> (2.0::real)"
    by auto
  show ?thesis
    using res len none parts sizes jit jev bounds
    unfolding Let_def runs_def num_batches_def by blast
qed

text \<open>
  Two batches of one record: the loop of the first batch uses up its three attempts, the
  second batch is still scored, after its jitter, and its result is the one returned.
\<close>

theorem chunked_evaluation_witness:
  "run_batch_evaluation three_failures half (one_sample @ one_sample) 1 world0 =
     (Inr (Some 3),
      \<lparr>calls = 4, draws = 3,
       trace = [Evaluate one_sample, Wait 15, Evaluate one_sample, Wait 25, Evaluate one_sample,
                Jitter 1.25, Evaluate one_sample]\<rparr>)"
proof -
  have n: "(length (one_sample @ one_sample) + 1 - 1) div 1 = 2" "[0..<2] = [0, Suc 0]"
    by (simp_all add: one_sample_def numeral_2_eq_2)
  have c: "connection_signature (py ''Connection error.'')"
    by (simp add: connection_signature_def py_def)
  have s: "batch_slice (one_sample @ one_sample) (Suc 0) 0 = one_sample"
          "batch_slice (one_sample @ one_sample) (Suc 0) (Suc 0) = one_sample"
    by (simp_all add: batch_slice_eq one_sample_def)
  have r1: "evaluate_batch three_failures half one_sample (Suc 0) 3 world0 =
      (None, \<lparr>calls = 3, draws = 2,
              trace = [Evaluate one_sample, Wait 15, Evaluate one_sample, Wait 25, Evaluate one_sample]\<rparr>)"
    by (simp add: evaluate_batch_def three_failures_def world0_def attempt_defs classified_wait_def c
        half_def)
  have r2: "evaluate_batch three_failures half one_sample (Suc (Suc 0)) 3
      \<lparr>calls = 3, draws = 2,
       trace = [Evaluate one_sample, Wait 15, Evaluate one_sample, Wait 25, Evaluate one_sample]\<rparr> =
      (Some 3, \<lparr>calls = 4, draws = 3,
         trace = [Evaluate one_sample, Wait 15, Evaluate one_sample, Wait 25, Evaluate one_sample,
                  Jitter 1.25, Evaluate one_sample]\<rparr>)"
    by (simp add: evaluate_batch_def three_failures_def attempt_defs half_def)
  have pos: "0 < (1::nat)" by simp
  note inst = chunked_evaluation [where batch_size = 1 and scorer = three_failures and rng = half
        and dataset = "one_sample @ one_sample" and w = world0, OF pos,
        THEN conjunct1, unfolded Let_def, THEN conjunct1]
  show ?thesis
    unfolding inst n by (simp add: s r1 r2)
qed

end
